theory Spec2Isabelle
  imports Complex_Main "HOL-Library.Char_ord" "HOL-Library.List_Lexorder"
begin

section \<open>JavaScript strings and numbers used by the transport-entry code\<close>

text \<open>
  A JavaScript string is modelled as a \<open>string\<close> (a list of 8-bit code units), which
  covers every identifier the allocator itself produces. Strings are ordered the way the
  document store orders them for \<open>sort({ id: -1 })\<close>: code unit by code unit, a proper
  prefix first (the order of \<open>HOL-Library.List_Lexorder\<close> over \<open>HOL-Library.Char_ord\<close>).

  A JavaScript number is a double. The model computes with \<open>int\<close>, which agrees with
  the double arithmetic of the source on the safe integers (magnitude at most
  \<open>2^53 - 1\<close>); a result of \<open>parseInt\<close> outside that range is reported as
  \<open>Unsafe\<close> and never computed with.
\<close>

definition digit_char :: "nat \<Rightarrow> char" where
  "digit_char d = char_of (48 + d)"

fun show_nat :: "nat \<Rightarrow> string" where
  "show_nat n = (if n < 10 then [digit_char n] else show_nat (n div 10) @ [digit_char (n mod 10)])"

declare show_nat.simps [simp del]

text \<open>\<open>String(n)\<close> for an integer \<open>n\<close> (decimal, a leading minus for negatives).\<close>

definition Number_toString :: "int \<Rightarrow> string" where
  "Number_toString n = (if n < 0 then CHR ''-'' # show_nat (nat (- n)) else show_nat (nat n))"

text \<open>\<open>s.slice(-2)\<close>: the last two code units, or all of \<open>s\<close> when it is shorter.\<close>

definition slice_last2 :: "string \<Rightarrow> string" where
  "slice_last2 s = drop (length s - 2) s"

text \<open>\<open>s.padStart(n, c)\<close> for a one-character filler \<open>c\<close>.\<close>

definition padStart :: "nat \<Rightarrow> char \<Rightarrow> string \<Rightarrow> string" where
  "padStart n c s = replicate (n - length s) c @ s"

text \<open>
  White space as \<open>parseInt\<close>, \<open>trim\<close> and the regular expression class
  \<open>\s\<close> see it, among 8-bit code units: tab, line feed, vertical tab, form feed,
  carriage return, space and the no-break space.
\<close>

definition isWhiteSpace :: "char \<Rightarrow> bool" where
  "isWhiteSpace c = (c \<in> set [CHR 0x09, CHR 0x0A, CHR 0x0B, CHR 0x0C, CHR 0x0D, CHR 0x20, CHR 0xA0])"

definition trim :: "string \<Rightarrow> string" where
  "trim s = rev (dropWhile isWhiteSpace (rev (dropWhile isWhiteSpace s)))"

text \<open>The value of a code unit as a digit (letters count from ten), if it is one.\<close>

definition digit_of :: "char \<Rightarrow> nat option" where
  "digit_of c =
     (let k = (of_char c :: nat)
      in if 48 \<le> k \<and> k \<le> 57 then Some (k - 48)
         else if 97 \<le> k \<and> k \<le> 122 then Some (k - 87)
         else if 65 \<le> k \<and> k \<le> 90 then Some (k - 55)
         else None)"

definition is_radix_digit :: "nat \<Rightarrow> char \<Rightarrow> bool" where
  "is_radix_digit R c = (case digit_of c of None \<Rightarrow> False | Some d \<Rightarrow> d < R)"

definition digit_val :: "char \<Rightarrow> nat" where
  "digit_val c = (case digit_of c of None \<Rightarrow> 0 | Some d \<Rightarrow> d)"

definition radix_value :: "nat \<Rightarrow> string \<Rightarrow> nat" where
  "radix_value R Z = foldl (\<lambda>a c. a * R + digit_val c) 0 Z"

datatype js_number = NaN | Num int | Unsafe

text \<open>
  \<open>parseInt(str)\<close> with no radix argument: leading white space is skipped, one sign
  is read, a \<open>0x\<close> or \<open>0X\<close> prefix selects radix 16, and the longest run of
  digits of the radix is the value; no digit at all gives \<open>NaN\<close>.
\<close>

definition parseInt :: "string \<Rightarrow> js_number" where
  "parseInt str =
     (let S = dropWhile isWhiteSpace str;
          sign = (if S \<noteq> [] \<and> hd S = CHR ''-'' then - 1 else (1::int));
          S1 = (if S \<noteq> [] \<and> (hd S = CHR ''+'' \<or> hd S = CHR ''-'') then tl S else S);
          hex = (take 2 S1 = ''0x'' \<or> take 2 S1 = ''0X'');
          R = (if hex then 16 else 10);
          S2 = (if hex then drop 2 S1 else S1);
          Z = takeWhile (is_radix_digit R) S2
      in if Z = [] then NaN
         else if radix_value R Z > 2 ^ 53 - 1 then Unsafe
         else Num (sign * int (radix_value R Z)))"

text \<open>\<open>s.split(sep)\<close> for a one-character separator; the result is never empty.\<close>

fun split :: "char \<Rightarrow> string \<Rightarrow> string list" where
  "split sep [] = [[]]"
| "split sep (c # cs) =
     (if c = sep then [] # split sep cs
      else (case split sep cs of [] \<Rightarrow> [[c]] | p # ps \<Rightarrow> (c # p) # ps))"

section \<open>The financial year of a date\<close>

text \<open>
  A \<open>Date\<close> is represented by what its local-time accessors return:
  \<open>getFullYear()\<close>, \<open>getMonth()\<close> (0 for January, 11 for December) and
  \<open>getDate()\<close>.
\<close>

record js_date =
  getFullYear :: int
  getMonth :: nat
  getDate :: nat

definition getFinancialYear :: "js_date \<Rightarrow> string" where
  "getFinancialYear date =
     (let currentYear = getFullYear date;
          currentMonth = getMonth date + 1
      in if currentMonth \<ge> 4
         then Number_toString currentYear @ ''-'' @ slice_last2 (Number_toString (currentYear + 1))
         else Number_toString (currentYear - 1) @ ''-'' @ slice_last2 (Number_toString currentYear))"

text \<open>
  The specification's wording, for comparison: the financial year of a date spans the
  calendar years \<open>(Y, Y + 1)\<close> from April on and \<open>(Y - 1, Y)\<close> before, and it is
  labelled by the first year in full and the last two digits of the second.
\<close>

definition spec_financial_year :: "js_date \<Rightarrow> int \<times> int" where
  "spec_financial_year d =
     (if getMonth d + 1 \<ge> 4 then (getFullYear d, getFullYear d + 1)
      else (getFullYear d - 1, getFullYear d))"

definition fy_label :: "int \<times> int \<Rightarrow> string" where
  "fy_label years = Number_toString (fst years) @ ''-'' @ slice_last2 (Number_toString (snd years))"

section \<open>Transport entries and their collection\<close>

text \<open>
  The fields of a stored transport entry that the identifier allocator and the route
  handlers read or write. \<open>oid\<close> is the store's \<open>_id\<close>; \<open>id_field\<close> is the
  business-facing \<open>id\<close>, absent on a document that was given none;
  \<open>invoiceNo\<close>, \<open>total\<close> and \<open>status\<close> are the paths of that name under
  \<open>transportBillData\<close>, \<open>ownerNameAndAddress\<close> the one under \<open>ownerData\<close>;
  a value under a nested object is \<open>None\<close> when the stored object lacks it.
  \<open>createdAt\<close> is a timestamp in milliseconds. Amounts are whole numbers here.
\<close>

type_synonym objectId = nat

record transportEntry =
  oid :: objectId
  id_field :: "string option"
  date_field :: js_date
  vehicleNo :: string
  from_field :: string
  to_field :: string
  invoiceNo :: "string option"
  ownerNameAndAddress :: "string option"
  total :: "int option"
  status :: "string option"
  userId :: objectId
  createdAt :: nat

type_synonym collection = "transportEntry list"

datatype error = ValidationError | DuplicateKey | CastError | RegexError | UnsafeNumber

text \<open>
  The filter \<open>{ id: { $regex: `^TE-FY${financialYear}-` } }\<close>: the pattern holds
  digits, letters and hyphens only, so it matches exactly the strings that start with it.
\<close>

definition regex_starts_with :: "string \<Rightarrow> string \<Rightarrow> bool" where
  "regex_starts_with p s = (take (length p) s = p)"

definition matching_ids :: "string \<Rightarrow> collection \<Rightarrow> string list" where
  "matching_ids p coll = filter (regex_starts_with p) (List.map_filter id_field coll)"

text \<open>
  \<open>findOne(...).sort({ id: -1 })\<close>, reduced to the one field the hook reads: the
  greatest matching \<open>id\<close>, or nothing when no document matches.
\<close>

definition findOne_last_id :: "string \<Rightarrow> collection \<Rightarrow> string option" where
  "findOne_last_id p coll = (case matching_ids p coll of [] \<Rightarrow> None | s # ss \<Rightarrow> Some (fold max ss s))"

text \<open>The sequence number the hook computes from \<open>lastEntry\<close>.\<close>

definition next_sequence :: "string option \<Rightarrow> js_number" where
  "next_sequence lastEntry =
     (case lastEntry of
        None \<Rightarrow> Num 1
      | Some lid \<Rightarrow>
          (case parseInt (last (split CHR ''-'' lid)) of
             NaN \<Rightarrow> Num 1
           | Num lastSequence \<Rightarrow> Num (lastSequence + 1)
           | Unsafe \<Rightarrow> Unsafe))"

text \<open>
  The \<open>pre('save')\<close> hook. \<open>!this.id\<close> holds for a missing and for an empty
  \<open>id\<close>; the document always has a date by then (the schema defaults it to the
  clock), so \<open>this.date || new Date()\<close> is \<open>this.date\<close>. Where the parsed
  suffix lies beyond the safe integers the code goes on with a rounded double; that case
  is not computed here and is reported as \<open>UnsafeNumber\<close>.
\<close>

definition pre_save :: "collection \<Rightarrow> transportEntry \<Rightarrow> error + transportEntry" where
  "pre_save coll doc =
     (if id_field doc = None \<or> id_field doc = Some []
      then (let financialYear = getFinancialYear (date_field doc);
                prefix = ''TE-FY'' @ financialYear @ ''-''
            in case next_sequence (findOne_last_id prefix coll) of
                 Num sequence \<Rightarrow>
                   Inr (doc\<lparr>id_field := Some (prefix @ padStart 4 CHR ''0'' (Number_toString sequence))\<rparr>)
               | _ \<Rightarrow> Inl UnsafeNumber)
      else Inr doc)"

text \<open>
  Insertion under the two unique indexes: \<open>_id\<close>, and the sparse one on \<open>id\<close>
  (documents without an \<open>id\<close> are not indexed).
\<close>

definition insertOne :: "collection \<Rightarrow> transportEntry \<Rightarrow> error + collection" where
  "insertOne coll doc =
     (if oid doc \<in> oid ` set coll then Inl DuplicateKey
      else if id_field doc \<noteq> None \<and> id_field doc \<in> id_field ` set coll then Inl DuplicateKey
      else Inr (coll @ [doc]))"

text \<open>The schema's own validation of the modelled paths, run before the hook.\<close>

definition status_enum :: "string list" where
  "status_enum = [''PENDING'', ''IN_PROGRESS'', ''COMPLETED'', ''CANCELLED'']"

definition schema_valid :: "transportEntry \<Rightarrow> bool" where
  "schema_valid doc =
     (vehicleNo doc \<noteq> [] \<and> length (vehicleNo doc) \<le> 20
      \<and> from_field doc \<noteq> [] \<and> length (from_field doc) \<le> 100
      \<and> to_field doc \<noteq> [] \<and> length (to_field doc) \<le> 100
      \<and> (case invoiceNo doc of None \<Rightarrow> True | Some s \<Rightarrow> length s \<le> 50)
      \<and> (case ownerNameAndAddress doc of None \<Rightarrow> True | Some s \<Rightarrow> length s \<le> 500)
      \<and> (case total doc of None \<Rightarrow> True | Some t \<Rightarrow> 0 \<le> t)
      \<and> (case status doc of None \<Rightarrow> True | Some st \<Rightarrow> st \<in> set status_enum))"

text \<open>\<open>doc.save()\<close>: validation, the hook, then the insertion.\<close>

definition save :: "collection \<Rightarrow> transportEntry \<Rightarrow> error + (collection \<times> transportEntry)" where
  "save coll doc =
     (if \<not> schema_valid doc then Inl ValidationError
      else case pre_save coll doc of
             Inl e \<Rightarrow> Inl e
           | Inr doc' \<Rightarrow>
               (case insertOne coll doc' of
                  Inl e \<Rightarrow> Inl e
                | Inr coll' \<Rightarrow> Inr (coll', doc')))"

text \<open>
  The identifier format \<open>TE-FY<year>-<seq>\<close>, as the hook assembles it from a
  financial-year label and a sequence number.
\<close>

definition fy_prefix :: "string \<Rightarrow> string" where
  "fy_prefix financialYear = ''TE-FY'' @ financialYear @ ''-''"

definition business_id :: "string \<Rightarrow> int \<Rightarrow> string" where
  "business_id financialYear sequence =
     fy_prefix financialYear @ padStart 4 CHR ''0'' (Number_toString sequence)"

section \<open>Creating an entry\<close>

text \<open>
  The JSON body of a create or update request, restricted to the modelled paths; a field
  is \<open>None\<close> when the body does not have it, and the two nested objects are
  \<open>None\<close> when the body has no such object. A date is given as the \<open>Date\<close> its
  ISO string denotes, a \<open>userId\<close> as the \<open>_id\<close> it casts to. The same shape serves
  for \<open>entryData\<close>, the object handed to \<open>TransportEntry.create\<close>.
\<close>

record bill_body =
  bb_invoiceNo :: "string option"
  bb_total :: "int option"
  bb_status :: "string option"

record owner_body =
  ob_ownerNameAndAddress :: "string option"

record entry_body =
  b_id :: "string option"
  b_userId :: "objectId option"
  b_date :: "js_date option"
  b_vehicleNo :: "string option"
  b_from :: "string option"
  b_to :: "string option"
  b_transportBillData :: "bill_body option"
  b_ownerData :: "owner_body option"

text \<open>The value at a dotted path of the body, such as \<open>transportBillData.total\<close>.\<close>

definition body_invoiceNo :: "entry_body \<Rightarrow> string option" where
  "body_invoiceNo body = (case b_transportBillData body of None \<Rightarrow> None | Some bb \<Rightarrow> bb_invoiceNo bb)"

definition body_total :: "entry_body \<Rightarrow> int option" where
  "body_total body = (case b_transportBillData body of None \<Rightarrow> None | Some bb \<Rightarrow> bb_total bb)"

definition body_status :: "entry_body \<Rightarrow> string option" where
  "body_status body = (case b_transportBillData body of None \<Rightarrow> None | Some bb \<Rightarrow> bb_status bb)"

definition body_ownerNameAndAddress :: "entry_body \<Rightarrow> string option" where
  "body_ownerNameAndAddress body =
     (case b_ownerData body of None \<Rightarrow> None | Some ob \<Rightarrow> ob_ownerNameAndAddress ob)"

text \<open>\<open>.notEmpty().isLength({ max: n })\<close> on a body field.\<close>

definition notEmpty_max :: "nat \<Rightarrow> string option \<Rightarrow> bool" where
  "notEmpty_max n v = (case v of None \<Rightarrow> False | Some s \<Rightarrow> s \<noteq> [] \<and> length s \<le> n)"

definition validateTransportEntry :: "entry_body \<Rightarrow> bool" where
  "validateTransportEntry body =
     (notEmpty_max 20 (b_vehicleNo body)
      \<and> notEmpty_max 100 (b_from body)
      \<and> notEmpty_max 100 (b_to body)
      \<and> (case body_total body of None \<Rightarrow> True | Some t \<Rightarrow> t \<ge> 0)
      \<and> (case body_status body of None \<Rightarrow> True | Some st \<Rightarrow> st \<in> set status_enum))"

text \<open>The schema's \<open>uppercase\<close> setter, on the letters a to z.\<close>

definition toUpperCase :: "string \<Rightarrow> string" where
  "toUpperCase s =
     map (\<lambda>c. if 97 \<le> (of_char c :: nat) \<and> (of_char c :: nat) \<le> 122
              then char_of ((of_char c :: nat) - 32) else c) s"

definition or_default :: "'a \<Rightarrow> 'a option \<Rightarrow> 'a" where
  "or_default d v = (case v of None \<Rightarrow> d | Some x \<Rightarrow> x)"

text \<open>
  \<open>new TransportEntry(entryData)\<close> with a generated \<open>_id\<close>: the schema's setters
  and defaults are applied; \<open>today\<close> and \<open>now\<close> are the clock's date and
  timestamp. A missing \<open>userId\<close> fails the schema's \<open>required\<close> check.
\<close>

definition new_TransportEntry ::
  "objectId \<Rightarrow> js_date \<Rightarrow> nat \<Rightarrow> entry_body \<Rightarrow> error + transportEntry" where
  "new_TransportEntry new_oid today now entryData =
     (case b_userId entryData of
        None \<Rightarrow> Inl ValidationError
      | Some uid \<Rightarrow>
          Inr \<lparr>oid = new_oid,
               id_field = b_id entryData,
               date_field = or_default today (b_date entryData),
               vehicleNo = toUpperCase (trim (or_default [] (b_vehicleNo entryData))),
               from_field = trim (or_default [] (b_from entryData)),
               to_field = trim (or_default [] (b_to entryData)),
               invoiceNo = map_option trim (body_invoiceNo entryData),
               ownerNameAndAddress = map_option trim (body_ownerNameAndAddress entryData),
               total = Some (or_default 0 (body_total entryData)),
               status = Some (or_default ''PENDING'' (body_status entryData)),
               userId = uid,
               createdAt = now\<rparr>)"

text \<open>A generated \<open>_id\<close> is one no stored document has.\<close>

definition fresh_oid :: "collection \<Rightarrow> objectId" where
  "fresh_oid coll = Suc (fold max (map oid coll) 0)"

definition create ::
  "collection \<Rightarrow> js_date \<Rightarrow> nat \<Rightarrow> entry_body \<Rightarrow> error + (collection \<times> transportEntry)" where
  "create coll today now entryData =
     (case new_TransportEntry (fresh_oid coll) today now entryData of
        Inl e \<Rightarrow> Inl e
      | Inr doc \<Rightarrow> save coll doc)"

text \<open>Entry data that the schema accepts once the document is built from it.\<close>

definition accepted :: "js_date \<Rightarrow> nat \<Rightarrow> entry_body \<Rightarrow> bool" where
  "accepted today now entryData =
     (case new_TransportEntry 0 today now entryData of Inl e \<Rightarrow> False | Inr doc \<Rightarrow> schema_valid doc)"


section \<open>Route handlers\<close>

text \<open>
  \<open>req.user\<close>, as the authentication middleware leaves it for the handlers: the
  caller's \<open>_id\<close> and role. A response is its HTTP status and its JSON payload.
\<close>

record user =
  user_oid :: objectId
  role :: string

record pagination =
  pg_total :: int
  pg_page :: int
  pg_pages :: int
  pg_limit :: int
  hasNext :: bool
  hasPrev :: bool

record stats_summary =
  totalEntries :: nat
  statusBreakdown :: "(string option \<times> nat) list"
  totalAmount :: int
  recentEntries :: nat

datatype payload =
    Failure string
  | Entry_data transportEntry
  | Null_data
  | List_data "transportEntry list" pagination
  | Message string
  | Stats_data stats_summary

type_synonym response = "nat \<times> payload"

subsection \<open>POST /api/transport-entries\<close>

definition post_entry ::
  "collection \<Rightarrow> user \<Rightarrow> js_date \<Rightarrow> nat \<Rightarrow> entry_body \<Rightarrow> collection \<times> response" where
  "post_entry coll req_user today now body =
     (if \<not> validateTransportEntry body then (coll, 400, Failure ''Validation failed'')
      else let entryData = body\<lparr>b_userId := Some (user_oid req_user)\<rparr>
           in case create coll today now entryData of
                Inr (coll', entry) \<Rightarrow> (coll', 201, Entry_data entry)
              | Inl e \<Rightarrow>
                  if e = ValidationError then (coll, 400, Failure ''Validation failed'')
                  else (coll, 500, Failure ''Server error while creating transport entry''))"

subsection \<open>GET /api/transport-entries\<close>

text \<open>
  The query string. \<open>page\<close> and \<open>limit\<close> are given as the integers their
  strings denote; the text parameters are strings, and \<open>search\<close>, \<open>from\<close> and
  \<open>to\<close> reach the store's regular-expression engine as they are.
\<close>

record list_query =
  q_page :: "int option"
  q_limit :: "int option"
  q_search :: "string option"
  q_status :: "string option"
  q_from :: "string option"
  q_to :: "string option"

definition validateQuery :: "list_query \<Rightarrow> bool" where
  "validateQuery q =
     ((case q_page q of None \<Rightarrow> True | Some p \<Rightarrow> 1 \<le> p)
      \<and> (case q_limit q of None \<Rightarrow> True | Some l \<Rightarrow> 1 \<le> l \<and> l \<le> 5000)
      \<and> (case q_search q of None \<Rightarrow> True | Some t \<Rightarrow> length t \<le> 100))"

text \<open>\<open>if (v)\<close> on an optional string: a missing or empty one does not count.\<close>

definition truthy :: "string option \<Rightarrow> string option" where
  "truthy v = (case v of None \<Rightarrow> None | Some t \<Rightarrow> if t = [] then None else Some t)"

text \<open>
  \<open>parseInt(v) || d\<close> on an optional integer parameter, exact on the safe integers
  (beyond them the code's number is the nearest double).
\<close>

definition int_or :: "int \<Rightarrow> int option \<Rightarrow> int" where
  "int_or d v = (case v of None \<Rightarrow> d | Some n \<Rightarrow> if n = 0 then d else n)"

text \<open>
  The filter object the handler builds: the owner, the free-text search that becomes
  the six-way \<open>$or\<close>, and the three optional filters.
\<close>

record entry_filter =
  f_userId :: objectId
  f_or :: "string option"
  f_status :: "string option"
  f_from :: "string option"
  f_to :: "string option"

definition build_filter :: "user \<Rightarrow> list_query \<Rightarrow> entry_filter" where
  "build_filter req_user q =
     \<lparr>f_userId = user_oid req_user,
      f_or = truthy (q_search q),
      f_status = truthy (q_status q),
      f_from = truthy (q_from q),
      f_to = truthy (q_to q)\<rparr>"

text \<open>
  The store's regular-expression engine for \<open>{ $regex: p, $options: 'i' }\<close> is a
  parameter: it turns a pattern into a test on strings, or rejects the pattern.
\<close>

type_synonym regex_engine = "string \<Rightarrow> (string \<Rightarrow> bool) option"

definition compile :: "regex_engine \<Rightarrow> string option \<Rightarrow> error + (string \<Rightarrow> bool) option" where
  "compile rx p =
     (case p of
        None \<Rightarrow> Inr None
      | Some t \<Rightarrow> (case rx t of None \<Rightarrow> Inl RegexError | Some m \<Rightarrow> Inr (Some m)))"

definition opt_match :: "(string \<Rightarrow> bool) \<Rightarrow> string option \<Rightarrow> bool" where
  "opt_match m v = (case v of None \<Rightarrow> False | Some t \<Rightarrow> m t)"

definition or_clause :: "(string \<Rightarrow> bool) option \<Rightarrow> transportEntry \<Rightarrow> bool" where
  "or_clause mo e =
     (case mo of
        None \<Rightarrow> True
      | Some m \<Rightarrow>
          opt_match m (id_field e) \<or> m (vehicleNo e) \<or> m (from_field e) \<or> m (to_field e)
          \<or> opt_match m (invoiceNo e) \<or> opt_match m (ownerNameAndAddress e))"

definition other_clauses ::
  "(string \<Rightarrow> bool) option \<Rightarrow> string option \<Rightarrow> (string \<Rightarrow> bool) option \<Rightarrow> (string \<Rightarrow> bool) option
     \<Rightarrow> transportEntry \<Rightarrow> bool" where
  "other_clauses mo st mf mt e =
     (or_clause mo e
      \<and> (case st of None \<Rightarrow> True | Some t \<Rightarrow> status e = Some t)
      \<and> (case mf of None \<Rightarrow> True | Some m \<Rightarrow> m (from_field e))
      \<and> (case mt of None \<Rightarrow> True | Some m \<Rightarrow> m (to_field e)))"

text \<open>The documents a filter selects; every key of the filter object has to hold.\<close>

definition find_entries :: "regex_engine \<Rightarrow> entry_filter \<Rightarrow> collection \<Rightarrow> error + transportEntry list" where
  "find_entries rx f coll =
     (case compile rx (f_or f) of
        Inl e \<Rightarrow> Inl e
      | Inr mo \<Rightarrow>
          (case compile rx (f_from f) of
             Inl e \<Rightarrow> Inl e
           | Inr mf \<Rightarrow>
               (case compile rx (f_to f) of
                  Inl e \<Rightarrow> Inl e
                | Inr mt \<Rightarrow>
                    Inr (filter (\<lambda>e. userId e = f_userId f \<and> other_clauses mo (f_status f) mf mt e) coll))))"

text \<open>\<open>.sort({ createdAt: -1 })\<close>: newest first.\<close>

definition sort_createdAt_desc :: "transportEntry list \<Rightarrow> transportEntry list" where
  "sort_createdAt_desc xs = sort_key (\<lambda>e. - int (createdAt e)) xs"

definition get_entries :: "regex_engine \<Rightarrow> collection \<Rightarrow> user \<Rightarrow> list_query \<Rightarrow> response" where
  "get_entries rx coll req_user q =
     (if \<not> validateQuery q then (400, Failure ''Validation failed'')
      else let page = int_or 1 (q_page q);
               limit = int_or 10 (q_limit q);
               skip = (page - 1) * limit;
               query = build_filter req_user q
           in case find_entries rx query coll of
                Inl e \<Rightarrow> (500, Failure ''Server error while fetching transport entries'')
              | Inr found \<Rightarrow>
                  (let entries = take (nat limit) (drop (nat skip) (sort_createdAt_desc found));
                       total = int (length found);
                       pages = \<lceil>real_of_int total / real_of_int limit\<rceil>
                   in (200, List_data entries
                         \<lparr>pg_total = total, pg_page = page, pg_pages = pages, pg_limit = limit,
                          hasNext = (page < pages), hasPrev = (page > 1)\<rparr>)))"

subsection \<open>GET, PUT and DELETE /api/transport-entries/:id\<close>

text \<open>
  The route parameter is given as the \<open>_id\<close> it casts to, or \<open>None\<close> when the
  cast fails. \<open>findOne({ _id, userId })\<close> looks the entry up under the caller's id.
\<close>

definition findOne_owned :: "collection \<Rightarrow> objectId \<Rightarrow> objectId \<Rightarrow> transportEntry option" where
  "findOne_owned coll entry_oid uid = find (\<lambda>e. oid e = entry_oid \<and> userId e = uid) coll"

text \<open>
  A document handed back by \<open>findOne\<close> or \<open>findByIdAndUpdate\<close> (no \<open>lean()\<close>)
  shows the schema's defaults on the paths the stored document lacks; the stored document
  is not changed by that.
\<close>

definition hydrate :: "transportEntry \<Rightarrow> transportEntry" where
  "hydrate e =
     e\<lparr>total := Some (or_default 0 (total e)),
       status := Some (or_default ''PENDING'' (status e))\<rparr>"

definition get_entry :: "collection \<Rightarrow> user \<Rightarrow> objectId option \<Rightarrow> response" where
  "get_entry coll req_user params_id =
     (case params_id of
        None \<Rightarrow> (400, Failure ''Invalid transport entry ID'')
      | Some entry_oid \<Rightarrow>
          (case findOne_owned coll entry_oid (user_oid req_user) of
             None \<Rightarrow> (404, Failure ''Transport entry not found'')
           | Some entry \<Rightarrow> (200, Entry_data (hydrate entry))))"

text \<open>
  \<open>findByIdAndUpdate(id, body, { new: true, runValidators: true })\<close>. The top-level
  paths the body has are set one by one; a nested object of the body replaces the stored
  nested object as a whole. The validators run on the paths being set.
\<close>

definition set_required :: "nat \<Rightarrow> string option \<Rightarrow> bool" where
  "set_required n v = (case v of None \<Rightarrow> True | Some t \<Rightarrow> t \<noteq> [] \<and> length t \<le> n)"

definition set_max :: "nat \<Rightarrow> string option \<Rightarrow> bool" where
  "set_max n v = (case v of None \<Rightarrow> True | Some t \<Rightarrow> length t \<le> n)"

definition update_valid :: "entry_body \<Rightarrow> bool" where
  "update_valid body =
     (set_required 20 (map_option (toUpperCase \<circ> trim) (b_vehicleNo body))
      \<and> set_required 100 (map_option trim (b_from body))
      \<and> set_required 100 (map_option trim (b_to body))
      \<and> set_max 50 (map_option trim (body_invoiceNo body))
      \<and> set_max 500 (map_option trim (body_ownerNameAndAddress body))
      \<and> (case body_total body of None \<Rightarrow> True | Some t \<Rightarrow> 0 \<le> t)
      \<and> (case body_status body of None \<Rightarrow> True | Some st \<Rightarrow> st \<in> set status_enum))"

definition apply_update :: "entry_body \<Rightarrow> transportEntry \<Rightarrow> transportEntry" where
  "apply_update body e =
     e\<lparr>id_field := (case b_id body of None \<Rightarrow> id_field e | Some t \<Rightarrow> Some t),
       userId := or_default (userId e) (b_userId body),
       date_field := or_default (date_field e) (b_date body),
       vehicleNo := or_default (vehicleNo e) (map_option (toUpperCase \<circ> trim) (b_vehicleNo body)),
       from_field := or_default (from_field e) (map_option trim (b_from body)),
       to_field := or_default (to_field e) (map_option trim (b_to body)),
       invoiceNo := (case b_transportBillData body of
                       None \<Rightarrow> invoiceNo e | Some bb \<Rightarrow> map_option trim (bb_invoiceNo bb)),
       total := (case b_transportBillData body of None \<Rightarrow> total e | Some bb \<Rightarrow> bb_total bb),
       status := (case b_transportBillData body of None \<Rightarrow> status e | Some bb \<Rightarrow> bb_status bb),
       ownerNameAndAddress := (case b_ownerData body of
                                 None \<Rightarrow> ownerNameAndAddress e
                               | Some ob \<Rightarrow> map_option trim (ob_ownerNameAndAddress ob))\<rparr>"

definition findByIdAndUpdate ::
  "collection \<Rightarrow> objectId \<Rightarrow> entry_body \<Rightarrow> error + (collection \<times> transportEntry option)" where
  "findByIdAndUpdate coll entry_oid body =
     (if \<not> update_valid body then Inl ValidationError
      else case find (\<lambda>e. oid e = entry_oid) coll of
             None \<Rightarrow> Inr (coll, None)
           | Some e \<Rightarrow>
               (let e' = apply_update body e
                in if id_field e' \<noteq> None
                      \<and> (\<exists>d\<in>set coll. oid d \<noteq> entry_oid \<and> id_field d = id_field e')
                   then Inl DuplicateKey
                   else Inr (map (\<lambda>d. if oid d = entry_oid then e' else d) coll, Some e')))"

definition put_entry :: "collection \<Rightarrow> user \<Rightarrow> objectId option \<Rightarrow> entry_body \<Rightarrow> collection \<times> response" where
  "put_entry coll req_user params_id body =
     (if \<not> validateTransportEntry body then (coll, 400, Failure ''Validation failed'')
      else case params_id of
             None \<Rightarrow> (coll, 400, Failure ''Invalid transport entry ID'')
           | Some entry_oid \<Rightarrow>
               (case findOne_owned coll entry_oid (user_oid req_user) of
                  None \<Rightarrow> (coll, 404, Failure ''Transport entry not found'')
                | Some entry \<Rightarrow>
                    (case findByIdAndUpdate coll entry_oid body of
                       Inl e \<Rightarrow>
                         if e = ValidationError then (coll, 400, Failure ''Validation failed'')
                         else (coll, 500, Failure ''Server error while updating transport entry'')
                     | Inr (coll', updatedEntry) \<Rightarrow>
                         (coll', 200,
                          case updatedEntry of
                            None \<Rightarrow> Null_data
                          | Some e' \<Rightarrow> Entry_data (hydrate e')))))"

definition findByIdAndDelete :: "collection \<Rightarrow> objectId \<Rightarrow> collection" where
  "findByIdAndDelete coll entry_oid = filter (\<lambda>d. oid d \<noteq> entry_oid) coll"

definition delete_entry :: "collection \<Rightarrow> user \<Rightarrow> objectId option \<Rightarrow> collection \<times> response" where
  "delete_entry coll req_user params_id =
     (case params_id of
        None \<Rightarrow> (coll, 400, Failure ''Invalid transport entry ID'')
      | Some entry_oid \<Rightarrow>
          (case findOne_owned coll entry_oid (user_oid req_user) of
             None \<Rightarrow> (coll, 404, Failure ''Transport entry not found'')
           | Some entry \<Rightarrow>
               (findByIdAndDelete coll entry_oid, 200, Message ''Transport entry deleted successfully'')))"

subsection \<open>GET /api/transport-entries/stats/summary\<close>

text \<open>
  \<open>$group\<close> by a key with \<open>{ $sum: 1 }\<close>: one row for each key that occurs, with
  the number of its occurrences.
\<close>

definition group_count :: "'a list \<Rightarrow> ('a \<times> nat) list" where
  "group_count xs = map (\<lambda>k. (k, count_list xs k)) (remdups xs)"

text \<open>
  \<open>$group\<close> with \<open>_id: null\<close> and \<open>{ $sum: '$transportBillData.total' }\<close>: no
  row for no document, else one row with the sum, a missing amount counting as zero.
\<close>

definition group_sum :: "transportEntry list \<Rightarrow> int list" where
  "group_sum xs = (if xs = [] then [] else [sum_list (map (\<lambda>e. or_default 0 (total e)) xs)])"

text \<open>\<open>sevenDaysAgo\<close> is the clock's timestamp moved back seven days.\<close>

definition stats_summary :: "collection \<Rightarrow> user \<Rightarrow> nat \<Rightarrow> response" where
  "stats_summary coll req_user sevenDaysAgo =
     (let uid = user_oid req_user;
          mine = filter (\<lambda>e. userId e = uid) coll;
          statusStats = group_count (map status mine);
          totalAmount' = group_sum mine;
          recent = length (filter (\<lambda>e. userId e = uid \<and> createdAt e \<ge> sevenDaysAgo) coll)
      in (200, Stats_data
            \<lparr>totalEntries = length mine,
             statusBreakdown = statusStats,
             totalAmount = (case totalAmount' of [] \<Rightarrow> 0 | t # _ \<Rightarrow> if t = 0 then 0 else t),
             recentEntries = recent\<rparr>))"

section \<open>Validators of the user schema\<close>

text \<open>The five validators that accept any format.\<close>

definition isValidMobile :: "string \<Rightarrow> bool" where
  "isValidMobile mobile = True"

definition isValidGST :: "string \<Rightarrow> bool" where
  "isValidGST gst = True"

definition isValidPAN :: "string \<Rightarrow> bool" where
  "isValidPAN pan = True"

definition isValidIFSC :: "string \<Rightarrow> bool" where
  "isValidIFSC ifsc = True"

definition isValidAccountNumber :: "string \<Rightarrow> bool" where
  "isValidAccountNumber accountNumber = True"

definition is_alpha :: "char \<Rightarrow> bool" where
  "is_alpha c = (let k = (of_char c :: nat) in (65 \<le> k \<and> k \<le> 90) \<or> (97 \<le> k \<and> k \<le> 122))"

definition is_digit :: "char \<Rightarrow> bool" where
  "is_digit c = (let k = (of_char c :: nat) in 48 \<le> k \<and> k \<le> 57)"

text \<open>
  \<open>isValidCompanyName\<close> tests the trimmed name against
  \<open>/^[a-zA-Z0-9\s&.-]+$/\<close>, \<open>isValidPersonName\<close> against \<open>/^[a-zA-Z\s.]+$/\<close>;
  both refuse an empty name and one shorter than two characters once trimmed.
\<close>

definition isValidCompanyName :: "string \<Rightarrow> bool" where
  "isValidCompanyName companyName =
     (if companyName = [] \<or> length (trim companyName) < 2 then False
      else trim companyName \<noteq> []
           \<and> list_all (\<lambda>c. is_alpha c \<or> is_digit c \<or> isWhiteSpace c \<or> c \<in> set ''&.-'')
                (trim companyName))"

definition isValidPersonName :: "string \<Rightarrow> bool" where
  "isValidPersonName name =
     (if name = [] \<or> length (trim name) < 2 then False
      else trim name \<noteq> []
           \<and> list_all (\<lambda>c. is_alpha c \<or> isWhiteSpace c \<or> c = CHR ''.'') (trim name))"

text \<open>
  The \<open>profile\<close> and \<open>bank\<close> objects of a user document as they are assigned, a
  path being \<open>None\<close> when it is not given.
\<close>

record user_profile =
  ownerName :: "string option"
  companyName :: "string option"
  mobileNumber :: "string option"
  address :: "string option"
  gstNumber :: "string option"
  panNumber :: "string option"

record user_bank =
  bankName :: "string option"
  accountHolderName :: "string option"
  accountNumber :: "string option"
  ifscCode :: "string option"
  bankBranchName :: "string option"

text \<open>
  What the schema checks on a path whose value (after the setters) is \<open>v\<close>: a
  required path needs a non-empty value; a length limit and a validator apply to a value
  that is there.
\<close>

definition path_ok :: "bool \<Rightarrow> nat option \<Rightarrow> (string \<Rightarrow> bool) \<Rightarrow> string option \<Rightarrow> bool" where
  "path_ok required maxlength validator v =
     (case v of
        None \<Rightarrow> \<not> required
      | Some t \<Rightarrow>
          (required \<longrightarrow> t \<noteq> [])
          \<and> (case maxlength of None \<Rightarrow> True | Some n \<Rightarrow> length t \<le> n)
          \<and> validator t)"

definition validate_profile :: "user_profile \<Rightarrow> bool" where
  "validate_profile p =
     (path_ok True (Some 100) isValidPersonName (map_option trim (ownerName p))
      \<and> path_ok True (Some 200) isValidCompanyName (map_option trim (companyName p))
      \<and> path_ok True None (\<lambda>t. True) (mobileNumber p)
      \<and> path_ok True (Some 500) (\<lambda>t. True) (map_option trim (address p))
      \<and> path_ok False None (\<lambda>t. True) (map_option (toUpperCase \<circ> trim) (gstNumber p))
      \<and> path_ok False None isValidPAN (map_option (toUpperCase \<circ> trim) (panNumber p)))"

definition validate_bank :: "user_bank \<Rightarrow> bool" where
  "validate_bank b =
     (path_ok False (Some 100) (\<lambda>t. True) (map_option trim (bankName b))
      \<and> path_ok False (Some 100) (\<lambda>t. True) (map_option trim (accountHolderName b))
      \<and> path_ok False None isValidAccountNumber (map_option trim (accountNumber b))
      \<and> path_ok False None isValidIFSC (map_option (toUpperCase \<circ> trim) (ifscCode b))
      \<and> path_ok False (Some 200) (\<lambda>t. True) (map_option trim (bankBranchName b)))"

section \<open>Sample data\<close>

text \<open>A minimal request body that passes validation, and two dates of April 2024.\<close>

definition sample_body :: entry_body where
  "sample_body =
     \<lparr>b_id = None, b_userId = Some 7, b_date = None, b_vehicleNo = Some ''MH12AB1234'',
      b_from = Some ''Pune'', b_to = Some ''Mumbai'', b_transportBillData = None,
      b_ownerData = None\<rparr>"

definition april_1_2024 :: js_date where
  "april_1_2024 = \<lparr>getFullYear = 2024, getMonth = 3, getDate = 1\<rparr>"


text \<open>A stored entry with a given \<open>_id\<close>, owner and business id.\<close>

definition sample_entry :: "objectId \<Rightarrow> objectId \<Rightarrow> string \<Rightarrow> transportEntry" where
  "sample_entry entry_oid uid bid =
     \<lparr>oid = entry_oid, id_field = Some bid, date_field = april_1_2024,
      vehicleNo = ''MH12AB1234'', from_field = ''Pune'', to_field = ''Mumbai'',
      invoiceNo = None, ownerNameAndAddress = None, total = Some 100,
      status = Some ''PENDING'', userId = uid, createdAt = 0\<rparr>"

text \<open>Two callers, and a body that also names an id and an owner of its own.\<close>

definition user_7 :: user where
  "user_7 = \<lparr>user_oid = 7, role = ''user''\<rparr>"

definition user_8 :: user where
  "user_8 = \<lparr>user_oid = 8, role = ''user''\<rparr>"

definition overwriting_body :: entry_body where
  "overwriting_body = sample_body\<lparr>b_id := Some ''MINE-1'', b_userId := Some 8\<rparr>"

text \<open>
  A regular-expression engine for patterns of letters and digits: the pattern matches
  the strings that contain it, whatever the case of the letters.
\<close>

fun tails :: "string \<Rightarrow> string list" where
  "tails [] = [[]]"
| "tails (c # cs) = (c # cs) # tails cs"

definition literal_engine :: regex_engine where
  "literal_engine p =
     Some (\<lambda>t. list_ex (\<lambda>u. take (length p) u = toUpperCase p) (tails (toUpperCase t)))"

text \<open>A list request with a search term and a status, and one for a third page of two.\<close>

definition search_query :: list_query where
  "search_query =
     \<lparr>q_page = None, q_limit = None, q_search = Some ''pune'', q_status = Some ''PENDING'',
      q_from = None, q_to = None\<rparr>"



definition mixed_entries :: collection where
  "mixed_entries =
     [sample_entry 1 7 ''TE-FY2024-25-0001'', sample_entry 2 8 ''TE-FY2024-25-0002'',
      (sample_entry 3 7 ''TE-FY2024-25-0003'')\<lparr>status := Some ''COMPLETED''\<rparr>]"

text \<open>A profile with free-form mobile number and tax identifiers.\<close>

definition sample_profile :: user_profile where
  "sample_profile =
     \<lparr>ownerName = Some ''Ravi Kumar'', companyName = Some ''Kumar & Sons'',
      mobileNumber = Some ''not a number'', address = Some ''12, Main Road'',
      gstNumber = Some ''??'', panNumber = Some ''-''\<rparr>"

definition sample_bank :: user_bank where
  "sample_bank =
     \<lparr>bankName = Some ''State Bank'', accountHolderName = None, accountNumber = Some ''abc'',
      ifscCode = Some ''?'', bankBranchName = None\<rparr>"

section \<open>Financial-year boundary\<close>

text \<open>
  C2. For every date the label computed by \<open>getFinancialYear\<close> is the label of the
  span \<open>(Y, Y + 1)\<close> when the month is April or later and of \<open>(Y - 1, Y)\<close> otherwise;
  31 March of year \<open>Y\<close> lies in \<open>(Y - 1, Y)\<close> and 1 April of year \<open>Y\<close> in
  \<open>(Y, Y + 1)\<close>.
\<close>

theorem financial_year_label:
  "getFinancialYear d = fy_label (spec_financial_year d)
   \<and> getFinancialYear \<lparr>getFullYear = Y, getMonth = 2, getDate = 31\<rparr> = fy_label (Y - 1, Y)
   \<and> getFinancialYear \<lparr>getFullYear = Y, getMonth = 3, getDate = 1\<rparr> = fy_label (Y, Y + 1)"
  by (simp add: getFinancialYear_def spec_financial_year_def fy_label_def Let_def)

section \<open>Decimal strings\<close>

lemma of_char_digit_char: "d < 10 \<Longrightarrow> (of_char (digit_char d) :: nat) = 48 + d"
  by (simp add: digit_char_def)

lemma digit_of_digit_char: "d < 10 \<Longrightarrow> digit_of (digit_char d) = Some d"
  by (simp add: digit_of_def of_char_digit_char)

lemma digit_val_digit_char: "d < 10 \<Longrightarrow> digit_val (digit_char d) = d"
  by (simp add: digit_val_def digit_of_digit_char)

lemma dec_digit_char: "d < 10 \<Longrightarrow> is_radix_digit 10 (digit_char d)"
  by (simp add: is_radix_digit_def digit_of_digit_char)

lemma show_nat_ne: "show_nat n \<noteq> []"
  by (subst show_nat.simps) simp

lemma show_nat_dec: "c \<in> set (show_nat n) \<Longrightarrow> is_radix_digit 10 c"
proof (induction n rule: show_nat.induct)
  case (1 n)
  show ?case
  proof (cases "n < 10")
    case True
    with "1.prems" show ?thesis
      by (subst (asm) show_nat.simps) (auto simp: dec_digit_char)
  next
    case False
    with "1.prems" have "c \<in> set (show_nat (n div 10)) \<or> c = digit_char (n mod 10)"
      by (subst (asm) show_nat.simps) auto
    with False "1.IH" show ?thesis
      by (auto simp: dec_digit_char)
  qed
qed

lemma radix_value_snoc:
  "radix_value R (Z @ [c]) = radix_value R Z * R + digit_val c"
  by (simp add: radix_value_def)

lemma radix_value_show_nat: "radix_value 10 (show_nat n) = n"
proof (induction n rule: show_nat.induct)
  case (1 n)
  show ?case
  proof (cases "n < 10")
    case True
    then show ?thesis
      by (subst show_nat.simps) (simp add: radix_value_def digit_val_digit_char)
  next
    case False
    with "1.IH" have "radix_value 10 (show_nat (n div 10)) = n div 10" by simp
    with False show ?thesis
      by (subst show_nat.simps) (simp add: radix_value_snoc digit_val_digit_char)
  qed
qed

lemma length_show_nat: "0 < m \<Longrightarrow> n < 10 ^ m \<Longrightarrow> length (show_nat n) \<le> m"
proof (induction n arbitrary: m rule: show_nat.induct)
  case (1 n)
  show ?case
  proof (cases "n < 10")
    case True
    with "1.prems" show ?thesis by (subst show_nat.simps) simp
  next
    case False
    from "1.prems" obtain k where m: "m = Suc k" by (cases m) auto
    have k: "0 < k"
    proof (rule ccontr)
      assume "\<not> 0 < k"
      with m "1.prems" False show False by simp
    qed
    from "1.prems" m have "n div 10 < 10 ^ k" by (simp add: less_mult_imp_div_less)
    with "1.IH" [OF False k] have "length (show_nat (n div 10)) \<le> k" by simp
    with False m show ?thesis by (subst show_nat.simps) simp
  qed
qed

lemma dec_range:
  assumes "is_radix_digit 10 c"
  shows "48 \<le> (of_char c :: nat)" "(of_char c :: nat) \<le> 57" "digit_val c = (of_char c :: nat) - 48"
  using assms by (auto simp: is_radix_digit_def digit_of_def digit_val_def Let_def split: if_splits)

lemma digit_val_le_9: "is_radix_digit 10 c \<Longrightarrow> digit_val c \<le> 9"
  using dec_range [of c] by arith

lemma dec_less_iff:
  assumes "is_radix_digit 10 a" "is_radix_digit 10 b"
  shows "(a < b) = (digit_val a < digit_val b)" and "(a = b) = (digit_val a = digit_val b)"
proof -
  note ra = dec_range [OF assms(1)] and rb = dec_range [OF assms(2)]
  have "(a < b) = ((of_char a :: nat) < of_char b)" by (simp add: less_char_def)
  with ra rb show "(a < b) = (digit_val a < digit_val b)" by arith
  have "(a = b) = ((of_char a :: nat) = of_char b)" by simp
  with ra rb show "(a = b) = (digit_val a = digit_val b)" by arith
qed

lemma dec_not_special:
  assumes "is_radix_digit 10 c"
  shows "\<not> isWhiteSpace c" "c \<noteq> CHR ''+''" "c \<noteq> CHR ''-''" "c \<noteq> CHR ''x''" "c \<noteq> CHR ''X''"
  using dec_range [OF assms] by (auto simp: isWhiteSpace_def)

lemma foldl_radix: "foldl (\<lambda>a c. a * R + digit_val c) a Z = a * R ^ length Z + radix_value R Z"
proof (induction Z arbitrary: a)
  case Nil
  show ?case by (simp add: radix_value_def)
next
  case (Cons c cs)
  have "foldl (\<lambda>a c. a * R + digit_val c) a (c # cs) = (a * R + digit_val c) * R ^ length cs + radix_value R cs"
    using Cons.IH [of "a * R + digit_val c"] by simp
  moreover have "radix_value R (c # cs) = digit_val c * R ^ length cs + radix_value R cs"
    using Cons.IH [of "digit_val c"] by (simp add: radix_value_def)
  ultimately show ?case by (simp add: algebra_simps)
qed

lemma radix_value_Cons: "radix_value R (c # cs) = digit_val c * R ^ length cs + radix_value R cs"
  using foldl_radix [of R "digit_val c" cs] by (simp add: radix_value_def)

lemma radix_value_bound: "\<forall>c\<in>set Z. is_radix_digit 10 c \<Longrightarrow> radix_value 10 Z < 10 ^ length Z"
proof (induction Z)
  case Nil
  show ?case by (simp add: radix_value_def)
next
  case (Cons c cs)
  then have "digit_val c \<le> 9" using digit_val_le_9 [of c] by simp
  then have "digit_val c * 10 ^ length cs \<le> 9 * 10 ^ length cs" by (rule mult_le_mono1)
  moreover from Cons have "radix_value 10 cs < 10 ^ length cs" by simp
  ultimately have "digit_val c * 10 ^ length cs + radix_value 10 cs < 10 * 10 ^ length cs" by arith
  then show ?case by (simp add: radix_value_Cons)
qed

lemma radix_value_zeros: "radix_value 10 (replicate k CHR ''0'' @ s) = radix_value 10 s"
proof (induction k)
  case 0
  show ?case by simp
next
  case (Suc k)
  have "digit_val CHR ''0'' = 0" by (simp add: digit_val_def digit_of_def)
  with Suc show ?case by (simp add: radix_value_Cons)
qed

lemma dec_lex_iff:
  assumes "length xs = length ys" "\<forall>c\<in>set xs. is_radix_digit 10 c" "\<forall>c\<in>set ys. is_radix_digit 10 c"
  shows "(xs < ys) = (radix_value 10 xs < radix_value 10 ys)"
  using assms
proof (induction xs ys rule: list_induct2)
  case Nil
  show ?case by simp
next
  case (Cons x xs y ys)
  let ?P = "(10::nat) ^ length xs"
  have bx: "radix_value 10 xs < ?P" using Cons.prems radix_value_bound [of xs] by simp
  have "radix_value 10 ys < 10 ^ length ys" using Cons.prems radix_value_bound [of ys] by simp
  with Cons.hyps have byy: "radix_value 10 ys < ?P" by simp
  have IH: "(xs < ys) = (radix_value 10 xs < radix_value 10 ys)" using Cons by simp
  have dx: "(x < y) = (digit_val x < digit_val y)" and de: "(x = y) = (digit_val x = digit_val y)"
    using Cons.prems dec_less_iff [of x y] by simp_all
  have arith: "(a * ?P + u < b * ?P + v) = (a < b \<or> a = b \<and> u < v)" if "u < ?P" "v < ?P" for a b u v :: nat
  proof (cases a b rule: linorder_cases)
    case less
    then have "Suc a * ?P \<le> b * ?P" by (intro mult_le_mono1) simp
    with that less show ?thesis by simp
  next
    case equal
    then show ?thesis by simp
  next
    case greater
    then have "Suc b * ?P \<le> a * ?P" by (intro mult_le_mono1) simp
    with that greater show ?thesis by simp
  qed
  show ?case
    using arith [OF bx byy, of "digit_val x" "digit_val y"] Cons.hyps
    by (simp add: radix_value_Cons IH dx de)
qed

lemma append_less_cancel: "(p @ xs < p @ ys) = (xs < (ys :: string))"
  by (induction p) simp_all

lemma split_ne: "split sep s \<noteq> []"
  by (induction s) (auto split: list.splits)

lemma split_no_sep: "sep \<notin> set s \<Longrightarrow> split sep s = [s]"
  by (induction s) auto

lemma split_append_sep: "sep \<notin> set s \<Longrightarrow> split sep (p @ sep # s) = split sep p @ [s]"
  by (induction p) (auto simp: split_no_sep split_ne split: list.splits)

lemma last_split_append: "sep \<notin> set s \<Longrightarrow> last (split sep (p @ sep # s)) = s"
  by (simp add: split_append_sep)

text \<open>
  A financial-year label consists of decimal digits and hyphens, so the pattern built
  from it has no character that is special in a regular expression.
\<close>

lemma Number_toString_chars:
  "c \<in> set (Number_toString n) \<Longrightarrow> is_radix_digit 10 c \<or> c = CHR ''-''"
  by (auto simp: Number_toString_def show_nat_dec split: if_splits)

lemma getFinancialYear_chars:
  assumes "c \<in> set (getFinancialYear d)"
  shows "is_radix_digit 10 c \<or> c = CHR ''-''"
proof -
  have tail: "c \<in> set (slice_last2 (Number_toString n)) \<Longrightarrow> is_radix_digit 10 c \<or> c = CHR ''-''" for n
    unfolding slice_last2_def by (rule Number_toString_chars) (rule in_set_dropD)
  from assms show ?thesis
    by (auto simp: getFinancialYear_def Let_def split: if_splits dest: Number_toString_chars tail)
qed

section \<open>The identifier format\<close>

lemma Number_toString_nat: "Number_toString (int n) = show_nat n"
  by (simp add: Number_toString_def)

lemma dec_zero: "is_radix_digit 10 CHR ''0''"
  by (simp add: is_radix_digit_def digit_of_def)

lemma pad_dec: "c \<in> set (padStart 4 CHR ''0'' (show_nat n)) \<Longrightarrow> is_radix_digit 10 c"
  by (auto simp: padStart_def show_nat_dec dec_zero split: if_splits)

lemma pad_ne: "padStart 4 CHR ''0'' (show_nat n) \<noteq> []"
  by (simp add: padStart_def show_nat_ne)

lemma pad_value: "radix_value 10 (padStart 4 CHR ''0'' (show_nat n)) = n"
  by (simp add: padStart_def radix_value_zeros radix_value_show_nat)

lemma pad_length: "n \<le> 9999 \<Longrightarrow> length (padStart 4 CHR ''0'' (show_nat n)) = 4"
  using length_show_nat [of 4 n] by (simp add: padStart_def)

lemma pad_no_hyphen: "CHR ''-'' \<notin> set (padStart 4 CHR ''0'' (show_nat n))"
  using pad_dec dec_not_special(3) by blast

lemma parseInt_dec:
  assumes "Z \<noteq> []" "\<forall>c\<in>set Z. is_radix_digit 10 c"
  shows "parseInt Z = (if radix_value 10 Z > 2 ^ 53 - 1 then Unsafe else Num (int (radix_value 10 Z)))"
proof -
  from assms obtain c cs where Z: "Z = c # cs" by (cases Z) auto
  with assms have c: "is_radix_digit 10 c" by simp
  have ws: "dropWhile isWhiteSpace Z = Z" using Z dec_not_special(1) [OF c] by simp
  have hex: "take 2 Z \<noteq> ''0x''" "take 2 Z \<noteq> ''0X''"
  proof -
    show "take 2 Z \<noteq> ''0x''"
    proof (cases cs)
      case Nil
      with Z show ?thesis by simp
    next
      case (Cons d ds)
      with Z assms have "is_radix_digit 10 d" by simp
      from dec_not_special(4) [OF this] Z Cons show ?thesis by simp
    qed
    show "take 2 Z \<noteq> ''0X''"
    proof (cases cs)
      case Nil
      with Z show ?thesis by simp
    next
      case (Cons d ds)
      with Z assms have "is_radix_digit 10 d" by simp
      from dec_not_special(5) [OF this] Z Cons show ?thesis by simp
    qed
  qed
  have tw: "takeWhile (is_radix_digit 10) Z = Z" using assms by simp
  have sg: "hd Z \<noteq> CHR ''-''" "hd Z \<noteq> CHR ''+''"
    using Z dec_not_special(2,3) [OF c] by simp_all
  show ?thesis
    unfolding parseInt_def Let_def ws by (simp add: hex tw sg assms(1))
qed

lemma parseInt_pad:
  "n \<le> 2 ^ 53 - 1 \<Longrightarrow> parseInt (padStart 4 CHR ''0'' (show_nat n)) = Num (int n)"
  using parseInt_dec [of "padStart 4 CHR ''0'' (show_nat n)"] pad_ne [of n] pad_dec [of _ n]
  by (simp add: pad_value)

lemma business_id_nat:
  "business_id fy (int n) = (''TE-FY'' @ fy) @ CHR ''-'' # padStart 4 CHR ''0'' (show_nat n)"
  by (simp add: business_id_def fy_prefix_def Number_toString_nat)

lemma last_split_business_id:
  "last (split CHR ''-'' (business_id fy (int n))) = padStart 4 CHR ''0'' (show_nat n)"
  unfolding business_id_nat by (rule last_split_append) (rule pad_no_hyphen)

lemma next_sequence_business_id:
  "n \<le> 2 ^ 53 - 1 \<Longrightarrow> next_sequence (Some (business_id fy (int n))) = Num (int n + 1)"
  by (simp add: next_sequence_def last_split_business_id parseInt_pad)



lemma business_id_less_iff:
  assumes "m \<le> 9999" "n \<le> 9999"
  shows "(business_id fy (int m) < business_id fy (int n)) = (m < n)"
proof -
  have "(business_id fy (int m) < business_id fy (int n))
        = (padStart 4 CHR ''0'' (show_nat m) < padStart 4 CHR ''0'' (show_nat n))"
    by (simp add: business_id_def Number_toString_nat append_less_cancel)
  also have "\<dots> = (radix_value 10 (padStart 4 CHR ''0'' (show_nat m))
                   < radix_value 10 (padStart 4 CHR ''0'' (show_nat n)))"
    by (rule dec_lex_iff) (simp_all add: pad_length assms pad_dec)
  finally show ?thesis by (simp add: pad_value)
qed

section \<open>The allocator on a collection numbered without gaps\<close>





lemma fresh_oid_new: "fresh_oid coll \<notin> oid ` set coll"
proof
  assume "fresh_oid coll \<in> oid ` set coll"
  then have "fresh_oid coll \<in> set (0 # map oid coll)" by simp
  then have "fresh_oid coll \<le> Max (set (0 # map oid coll))" by (intro Max_ge) simp_all
  also have "\<dots> = fold max (map oid coll) 0" by (simp only: Max.set_eq_fold)
  finally show False by (simp add: fresh_oid_def)
qed


lemma accepted_new:
  assumes "accepted today now entryData"
  obtains doc where "new_TransportEntry new_oid today now entryData = Inr doc"
    and "schema_valid doc" and "id_field doc = b_id entryData"
    and "date_field doc = or_default today (b_date entryData)" and "oid doc = new_oid"
  using assms
  by (auto simp: accepted_def new_TransportEntry_def schema_valid_def split: option.splits)




lemma findOne_last_id_Max:
  "findOne_last_id p coll =
     (if matching_ids p coll = [] then None else Some (Max (set (matching_ids p coll))))"
proof (cases "matching_ids p coll")
  case Nil
  then show ?thesis by (simp add: findOne_last_id_def)
next
  case (Cons s ss)
  have "fold max ss s = Max (set (s # ss))" by (rule Max.set_eq_fold [symmetric])
  with Cons show ?thesis by (simp add: findOne_last_id_def)
qed


lemma show_nat_9999: "show_nat 9999 = ''9999''"
  by (simp add: show_nat.simps digit_char_def char_of_eq_iff)

lemma show_nat_10000: "show_nat 10000 = ''10000''"
  by (simp add: show_nat.simps digit_char_def char_of_eq_iff)

lemma business_id_10000_less: "business_id fy 10000 < business_id fy 9999"
proof -
  have "business_id fy (int 10000) < business_id fy (int 9999)"
    unfolding business_id_nat
    by (simp add: show_nat_9999 show_nat_10000 padStart_def append_less_cancel less_char_def)
  then show ?thesis by simp
qed







section \<open>Serial allocation\<close>




section \<open>Lexicographic and numeric order of identifiers\<close>

lemma Max_business_ids_list:
  assumes "ns \<noteq> []" "\<forall>n\<in>set ns. n \<le> 9999"
  shows "Max (set (map (\<lambda>n. business_id fy (int n)) ns)) = business_id fy (int (Max (set ns)))"
proof (rule Max_eqI)
  show "finite (set (map (\<lambda>n. business_id fy (int n)) ns))" by simp
  have "Max (set ns) \<in> set ns" using assms(1) by (intro Max_in) simp_all
  then show "business_id fy (int (Max (set ns))) \<in> set (map (\<lambda>n. business_id fy (int n)) ns)"
    by simp
  fix y
  assume "y \<in> set (map (\<lambda>n. business_id fy (int n)) ns)"
  then obtain k where k: "y = business_id fy (int k)" "k \<in> set ns" by auto
  then have le: "k \<le> Max (set ns)" by simp
  have bounds: "k \<le> 9999" "Max (set ns) \<le> 9999"
    using assms k \<open>Max (set ns) \<in> set ns\<close> by simp_all
  show "y \<le> business_id fy (int (Max (set ns)))"
  proof (cases "k = Max (set ns)")
    case True
    with k show ?thesis by simp
  next
    case False
    with le have "k < Max (set ns)" by simp
    with business_id_less_iff [OF bounds, of fy] k show ?thesis by simp
  qed
qed

text \<open>
  C3. When the ids matching a financial year's prefix are that prefix followed by
  four-digit padded numbers, all at most 9999, the lexicographically greatest of them
  carries the numerically greatest number, so the allocator's lookup returns it and the
  next sequence is that number plus one. With a five-digit suffix the two orders
  disagree: the id numbered 10000 sorts below the id numbered 9999.
\<close>

theorem lexicographic_lookup:
  assumes "ns \<noteq> []"
    and "\<forall>n\<in>set ns. n \<le> 9999"
    and "matching_ids (fy_prefix fy) coll = map (\<lambda>n. business_id fy (int n)) ns"
  shows "Max (set (map (\<lambda>n. business_id fy (int n)) ns)) = business_id fy (int (Max (set ns)))
       \<and> findOne_last_id (fy_prefix fy) coll = Some (business_id fy (int (Max (set ns))))
       \<and> next_sequence (findOne_last_id (fy_prefix fy) coll) = Num (int (Max (set ns)) + 1)
       \<and> (\<exists>ms. ms \<noteq> [] \<and> (\<exists>n\<in>set ms. 10000 \<le> n)
              \<and> Max (set (map (\<lambda>n. business_id fy (int n)) ms)) \<noteq> business_id fy (int (Max (set ms))))"
proof -
  have mx: "Max (set (map (\<lambda>n. business_id fy (int n)) ns)) = business_id fy (int (Max (set ns)))"
    using assms(1,2) by (rule Max_business_ids_list)
  have ne: "matching_ids (fy_prefix fy) coll \<noteq> []" using assms(1,3) by simp
  have look: "findOne_last_id (fy_prefix fy) coll = Some (business_id fy (int (Max (set ns))))"
    using ne by (simp add: findOne_last_id_Max) (simp only: assms(3) mx)
  have "Max (set ns) \<in> set ns" using assms(1) by (intro Max_in) simp_all
  with assms(2) have "Max (set ns) \<le> 9999" by simp
  then have "Max (set ns) \<le> 2 ^ 53 - 1" by simp
  then have nxt: "next_sequence (findOne_last_id (fy_prefix fy) coll) = Num (int (Max (set ns)) + 1)"
    unfolding look by (rule next_sequence_business_id)
  have dis: "\<exists>ms. ms \<noteq> [] \<and> (\<exists>n\<in>set ms. 10000 \<le> n)
              \<and> Max (set (map (\<lambda>n. business_id fy (int n)) ms)) \<noteq> business_id fy (int (Max (set ms)))"
  proof (intro exI conjI)
    show "[9999, 10000::nat] \<noteq> []" by simp
    show "\<exists>n\<in>set [9999, 10000::nat]. 10000 \<le> n" by simp
    have "max (business_id fy 9999) (business_id fy 10000) = business_id fy 9999"
      using business_id_10000_less [of fy] by (intro max_absorb1) simp
    then have "Max (set (map (\<lambda>n. business_id fy (int n)) [9999, 10000])) = business_id fy 9999"
      by simp
    moreover have "business_id fy (int (Max (set [9999, 10000]))) = business_id fy 10000"
      by simp
    moreover have "business_id fy 9999 \<noteq> business_id fy 10000"
      using business_id_10000_less [of fy] by simp
    ultimately show "Max (set (map (\<lambda>n. business_id fy (int n)) [9999, 10000]))
        \<noteq> business_id fy (int (Max (set [9999, 10000])))"
      by simp
  qed
  show ?thesis by (intro conjI mx look nxt dis)
qed

theorem lexicographic_lookup_witness:
  "findOne_last_id (fy_prefix ''2024-25'')
     [sample_entry 1 7 ''TE-FY2024-25-0002'', sample_entry 2 7 ''TE-FY2024-25-0001''] =
     Some ''TE-FY2024-25-0002''
   \<and> next_sequence (Some ''TE-FY2024-25-0002'') = Num 3"
proof -
  have ids: "business_id ''2024-25'' 1 = ''TE-FY2024-25-0001''" "business_id ''2024-25'' 2 = ''TE-FY2024-25-0002''"
    by (simp_all add: business_id_def fy_prefix_def padStart_def Number_toString_def show_nat.simps
        digit_char_def char_of_eq_iff numeral_3_eq_3)
  have a: "[2, 1::nat] \<noteq> []" by simp
  have b: "\<forall>n\<in>set [2, 1::nat]. n \<le> 9999" by simp
  have c: "matching_ids (fy_prefix ''2024-25'')
             [sample_entry 1 7 ''TE-FY2024-25-0002'', sample_entry 2 7 ''TE-FY2024-25-0001'']
           = map (\<lambda>n. business_id ''2024-25'' (int n)) [2, 1]"
    by (simp add: ids matching_ids_def map_filter_simps sample_entry_def regex_starts_with_def fy_prefix_def)
  from lexicographic_lookup [OF a b c]
  have look: "findOne_last_id (fy_prefix ''2024-25'')
        [sample_entry 1 7 ''TE-FY2024-25-0002'', sample_entry 2 7 ''TE-FY2024-25-0001'']
      = Some (business_id ''2024-25'' (int (Max (set [2, 1]))))"
    and nxt: "next_sequence (findOne_last_id (fy_prefix ''2024-25'')
        [sample_entry 1 7 ''TE-FY2024-25-0002'', sample_entry 2 7 ''TE-FY2024-25-0001''])
      = Num (int (Max (set [2, 1])) + 1)"
    by blast+
  from nxt show ?thesis unfolding look by (simp add: ids)
qed

section \<open>Client-supplied identifiers\<close>

lemma pre_save_keeps_id: "id_field doc = Some t \<Longrightarrow> t \<noteq> [] \<Longrightarrow> pre_save coll doc = Inr doc"
  by (simp add: pre_save_def)

text \<open>
  C10. A create request whose body supplies a non-empty id that no stored entry has, and
  that passes validation, is answered 201 with an entry carrying exactly that id: the
  hook leaves a document that has an id alone, whatever the id looks like. When a stored
  entry already has the id, the request is answered 500 and nothing is stored.
\<close>

theorem client_supplied_id:
  assumes "validateTransportEntry body"
    and "accepted today now (body\<lparr>b_userId := Some (user_oid req_user)\<rparr>)"
    and "b_id body = Some t"
    and "t \<noteq> []"
  shows "(\<forall>coll doc. id_field doc = Some t \<longrightarrow> pre_save coll doc = Inr doc)
       \<and> (Some t \<notin> id_field ` set coll \<longrightarrow>
            (\<exists>entry. post_entry coll req_user today now body = (coll @ [entry], 201, Entry_data entry)
               \<and> id_field entry = Some t \<and> userId entry = user_oid req_user))
       \<and> (Some t \<in> id_field ` set coll \<longrightarrow>
            post_entry coll req_user today now body
              = (coll, 500, Failure ''Server error while creating transport entry''))"
proof -
  let ?data = "body\<lparr>b_userId := Some (user_oid req_user)\<rparr>"
  from assms(2) obtain doc where doc: "new_TransportEntry (fresh_oid coll) today now ?data = Inr doc"
    and valid: "schema_valid doc" and did: "id_field doc = b_id ?data" and doid: "oid doc = fresh_oid coll"
    by (rule accepted_new)
  have uid: "userId doc = user_oid req_user"
    using doc by (auto simp: new_TransportEntry_def split: option.splits)
  have did': "id_field doc = Some t" using did assms(3) by simp
  have hook: "pre_save coll doc = Inr doc" using did' assms(4) by (rule pre_save_keeps_id)
  have a: "\<forall>coll doc. id_field doc = Some t \<longrightarrow> pre_save coll doc = Inr doc"
    using assms(4) by (simp add: pre_save_keeps_id)
  have b: "Some t \<notin> id_field ` set coll \<longrightarrow>
            (\<exists>entry. post_entry coll req_user today now body = (coll @ [entry], 201, Entry_data entry)
               \<and> id_field entry = Some t \<and> userId entry = user_oid req_user)"
  proof
    assume "Some t \<notin> id_field ` set coll"
    then have "insertOne coll doc = Inr (coll @ [doc])"
      using fresh_oid_new [of coll] doid did' by (simp add: insertOne_def)
    then have "post_entry coll req_user today now body = (coll @ [doc], 201, Entry_data doc)"
      using assms(1) doc valid hook by (simp add: post_entry_def create_def save_def)
    with did' uid show "\<exists>entry. post_entry coll req_user today now body = (coll @ [entry], 201, Entry_data entry)
               \<and> id_field entry = Some t \<and> userId entry = user_oid req_user"
      by blast
  qed
  have c: "Some t \<in> id_field ` set coll \<longrightarrow>
            post_entry coll req_user today now body
              = (coll, 500, Failure ''Server error while creating transport entry'')"
  proof
    assume "Some t \<in> id_field ` set coll"
    then have "insertOne coll doc = Inl DuplicateKey"
      using fresh_oid_new [of coll] doid did' by (simp add: insertOne_def)
    then show "post_entry coll req_user today now body
              = (coll, 500, Failure ''Server error while creating transport entry'')"
      using assms(1) doc valid hook by (simp add: post_entry_def create_def save_def)
  qed
  show ?thesis by (intro conjI a b c)
qed

lemma sample_valid: "validateTransportEntry (sample_body\<lparr>b_id := v\<rparr>)"
  by (simp add: validateTransportEntry_def sample_body_def notEmpty_max_def body_total_def body_status_def)

lemma sample_accepted_with:
  "accepted today now (sample_body\<lparr>b_id := v, b_userId := Some u\<rparr>)"
  by (simp add: accepted_def new_TransportEntry_def sample_body_def schema_valid_def or_default_def
      trim_def toUpperCase_def isWhiteSpace_def status_enum_def body_invoiceNo_def body_total_def
      body_status_def body_ownerNameAndAddress_def)

theorem client_supplied_id_witness:
  "\<exists>entry. post_entry [] user_7 april_1_2024 0 (sample_body\<lparr>b_id := Some ''my own id''\<rparr>)
             = ([entry], 201, Entry_data entry)
     \<and> id_field entry = Some ''my own id''"
proof -
  have a: "validateTransportEntry (sample_body\<lparr>b_id := Some ''my own id''\<rparr>)" by (rule sample_valid)
  have b: "accepted april_1_2024 0 (sample_body\<lparr>b_id := Some ''my own id'', b_userId := Some (user_oid user_7)\<rparr>)"
    by (rule sample_accepted_with)
  have c: "b_id (sample_body\<lparr>b_id := Some ''my own id''\<rparr>) = Some ''my own id''" by simp
  have d: "''my own id'' \<noteq> []" by simp
  from client_supplied_id [OF a b c d, of "[]"] show ?thesis by auto
qed

section \<open>Entries of another user\<close>

lemma findOne_owned_foreign:
  assumes "e \<in> set coll" "oid e = entry_oid" "userId e \<noteq> uid" "distinct (map oid coll)"
  shows "findOne_owned coll entry_oid uid = None"
proof -
  have "inj_on oid (set coll)" using assms(4) by (simp add: distinct_map)
  then have "\<And>x. x \<in> set coll \<Longrightarrow> oid x = entry_oid \<Longrightarrow> x = e"
    using assms(1,2) by (auto dest: inj_onD)
  then have "\<not> (\<exists>x\<in>set coll. oid x = entry_oid \<and> userId x = uid)"
    using assms(3) by blast
  then show ?thesis by (simp add: findOne_owned_def find_None_iff)
qed

lemma findOne_owned_missing:
  "entry_oid \<notin> oid ` set coll \<Longrightarrow> findOne_owned coll entry_oid uid = None"
  by (auto simp: findOne_owned_def find_None_iff)

lemma get_entry_status: "fst (get_entry coll req_user params_id) \<in> {200, 400, 404}"
  by (simp add: get_entry_def split: option.splits)

lemma put_entry_status: "fst (snd (put_entry coll req_user params_id body)) \<in> {200, 400, 404, 500}"
  by (simp add: put_entry_def split: option.splits sum.splits prod.splits)

lemma delete_entry_status: "fst (snd (delete_entry coll req_user params_id)) \<in> {200, 400, 404}"
  by (simp add: delete_entry_def split: option.splits)

text \<open>
  C5 (amended). For GET, PUT and DELETE on \<open>/api/transport-entries/:id\<close> by a caller
  with a verified identity, when the addressed entry exists but belongs to another user,
  nothing is changed and the response is the one given when no entry has the addressed
  \<open>_id\<close>: GET and DELETE answer 404 ``Transport entry not found''; PUT, which
  validates the body before it looks the entry up, answers 404 ``Transport entry not
  found'' for a body that passes the validation and 400 ``Validation failed'' for one
  that does not. None of the three handlers ever answers 403.
\<close>

theorem foreign_entry_not_found:
  assumes "e \<in> set coll"
    and "oid e = entry_oid"
    and "userId e \<noteq> user_oid req_user"
    and "distinct (map oid coll)"
  shows "get_entry coll req_user (Some entry_oid) = (404, Failure ''Transport entry not found'')
       \<and> put_entry coll req_user (Some entry_oid) body
           = (if validateTransportEntry body
              then (coll, 404, Failure ''Transport entry not found'')
              else (coll, 400, Failure ''Validation failed''))
       \<and> delete_entry coll req_user (Some entry_oid) = (coll, 404, Failure ''Transport entry not found'')
       \<and> (\<forall>coll'. entry_oid \<notin> oid ` set coll' \<longrightarrow>
             get_entry coll' req_user (Some entry_oid) = (404, Failure ''Transport entry not found'')
             \<and> put_entry coll' req_user (Some entry_oid) body
                 = (if validateTransportEntry body
                    then (coll', 404, Failure ''Transport entry not found'')
                    else (coll', 400, Failure ''Validation failed''))
             \<and> delete_entry coll' req_user (Some entry_oid)
                 = (coll', 404, Failure ''Transport entry not found''))
       \<and> (\<forall>c u p b. fst (get_entry c u p) \<noteq> 403 \<and> fst (snd (put_entry c u p b)) \<noteq> 403
             \<and> fst (snd (delete_entry c u p)) \<noteq> 403)"
proof -
  have none: "findOne_owned coll entry_oid (user_oid req_user) = None"
    using assms by (rule findOne_owned_foreign)
  have a: "get_entry coll req_user (Some entry_oid) = (404, Failure ''Transport entry not found'')"
    by (simp add: get_entry_def none)
  have b: "put_entry coll req_user (Some entry_oid) body
           = (if validateTransportEntry body
              then (coll, 404, Failure ''Transport entry not found'')
              else (coll, 400, Failure ''Validation failed''))"
    by (simp add: put_entry_def none)
  have c: "delete_entry coll req_user (Some entry_oid) = (coll, 404, Failure ''Transport entry not found'')"
    by (simp add: delete_entry_def none)
  have d: "\<forall>coll'. entry_oid \<notin> oid ` set coll' \<longrightarrow>
             get_entry coll' req_user (Some entry_oid) = (404, Failure ''Transport entry not found'')
             \<and> put_entry coll' req_user (Some entry_oid) body
                 = (if validateTransportEntry body
                    then (coll', 404, Failure ''Transport entry not found'')
                    else (coll', 400, Failure ''Validation failed''))
             \<and> delete_entry coll' req_user (Some entry_oid)
                 = (coll', 404, Failure ''Transport entry not found'')"
    by (simp add: get_entry_def put_entry_def delete_entry_def findOne_owned_missing)
  have e: "\<forall>c u p b. fst (get_entry c u p) \<noteq> 403 \<and> fst (snd (put_entry c u p b)) \<noteq> 403
             \<and> fst (snd (delete_entry c u p)) \<noteq> 403"
  proof (intro allI conjI)
    fix c u p b
    show "fst (get_entry c u p) \<noteq> 403" using get_entry_status [of c u p] by auto
    show "fst (snd (put_entry c u p b)) \<noteq> 403" using put_entry_status [of c u p b] by auto
    show "fst (snd (delete_entry c u p)) \<noteq> 403" using delete_entry_status [of c u p] by auto
  qed
  show ?thesis by (intro conjI a b c d e)
qed

lemma sample_without_vehicle_invalid:
  "\<not> validateTransportEntry (sample_body\<lparr>b_vehicleNo := None\<rparr>)"
  by (simp add: validateTransportEntry_def notEmpty_max_def)

theorem foreign_entry_not_found_witness:
  "get_entry [sample_entry 1 8 ''TE-FY2024-25-0001''] user_7 (Some 1)
     = (404, Failure ''Transport entry not found'')
   \<and> put_entry [sample_entry 1 8 ''TE-FY2024-25-0001''] user_7 (Some 1) sample_body
     = ([sample_entry 1 8 ''TE-FY2024-25-0001''], 404, Failure ''Transport entry not found'')
   \<and> put_entry [sample_entry 1 8 ''TE-FY2024-25-0001''] user_7 (Some 1)
        (sample_body\<lparr>b_vehicleNo := None\<rparr>)
     = ([sample_entry 1 8 ''TE-FY2024-25-0001''], 400, Failure ''Validation failed'')
   \<and> delete_entry [sample_entry 1 8 ''TE-FY2024-25-0001''] user_7 (Some 1)
     = ([sample_entry 1 8 ''TE-FY2024-25-0001''], 404, Failure ''Transport entry not found'')"
proof -
  have a: "sample_entry 1 8 ''TE-FY2024-25-0001'' \<in> set [sample_entry 1 8 ''TE-FY2024-25-0001'']"
    by simp
  have b: "oid (sample_entry 1 8 ''TE-FY2024-25-0001'') = 1" by (simp add: sample_entry_def)
  have c: "userId (sample_entry 1 8 ''TE-FY2024-25-0001'') \<noteq> user_oid user_7"
    by (simp add: sample_entry_def user_7_def)
  have d: "distinct (map oid [sample_entry 1 8 ''TE-FY2024-25-0001''])" by simp
  have valid: "validateTransportEntry sample_body"
    using sample_valid [of "b_id sample_body"] by simp
  note invalid = sample_without_vehicle_invalid
  from foreign_entry_not_found [OF a b c d, of sample_body]
  have g: "get_entry [sample_entry 1 8 ''TE-FY2024-25-0001''] user_7 (Some 1)
        = (404, Failure ''Transport entry not found'')"
    and p: "put_entry [sample_entry 1 8 ''TE-FY2024-25-0001''] user_7 (Some 1) sample_body
        = ([sample_entry 1 8 ''TE-FY2024-25-0001''], 404, Failure ''Transport entry not found'')"
    and del: "delete_entry [sample_entry 1 8 ''TE-FY2024-25-0001''] user_7 (Some 1)
        = ([sample_entry 1 8 ''TE-FY2024-25-0001''], 404, Failure ''Transport entry not found'')"
    using valid by simp_all
  from foreign_entry_not_found [OF a b c d, of "sample_body\<lparr>b_vehicleNo := None\<rparr>"]
  have p': "put_entry [sample_entry 1 8 ''TE-FY2024-25-0001''] user_7 (Some 1)
        (sample_body\<lparr>b_vehicleNo := None\<rparr>)
        = ([sample_entry 1 8 ''TE-FY2024-25-0001''], 400, Failure ''Validation failed'')"
    using invalid by simp
  show ?thesis by (intro conjI g p p' del)
qed

theorem foreign_entry_forbidden_counterexample:
  "fst (get_entry [sample_entry 1 8 ''TE-FY2024-25-0001''] user_7 (Some 1)) = 404
   \<and> fst (get_entry [] user_7 (Some 1)) = 404"
  by (simp add: get_entry_def findOne_owned_def sample_entry_def user_7_def)

section \<open>Updating an entry\<close>

text \<open>
  C6, at a request that the code answers otherwise than the claim says. User 7 owns the
  entry with \<open>_id\<close> 1 and business id TE-FY2024-25-0001 and sends a valid PUT whose
  body also carries \<open>id: 'MINE-1'\<close> and \<open>userId: 8\<close>. The update is answered 200 and
  the stored entry now has business id MINE-1 and owner 8.
\<close>

theorem put_overwrites_id_and_owner:
  "put_entry [sample_entry 1 7 ''TE-FY2024-25-0001''] user_7 (Some 1) overwriting_body
     = ([sample_entry 1 8 ''MINE-1''], 200, Entry_data (sample_entry 1 8 ''MINE-1''))"
  by (simp add: put_entry_def findOne_owned_def findByIdAndUpdate_def apply_update_def update_valid_def
      validateTransportEntry_def notEmpty_max_def set_required_def set_max_def overwriting_body_def
      sample_body_def sample_entry_def user_7_def or_default_def body_total_def body_status_def
      body_invoiceNo_def body_ownerNameAndAddress_def trim_def toUpperCase_def isWhiteSpace_def
      hydrate_def Let_def)

lemma apply_update_frame:
  "b_id body = None \<Longrightarrow> b_userId body = None \<Longrightarrow>
   id_field (apply_update body e) = id_field e \<and> userId (apply_update body e) = userId e
   \<and> oid (apply_update body e) = oid e"
  by (simp add: apply_update_def or_default_def)

section \<open>Listing entries\<close>

lemma find_entries_Inr:
  assumes "find_entries rx f coll = Inr found"
  obtains mo mf mt where "compile rx (f_or f) = Inr mo" "compile rx (f_from f) = Inr mf"
    "compile rx (f_to f) = Inr mt"
    "found = filter (\<lambda>e. userId e = f_userId f \<and> other_clauses mo (f_status f) mf mt e) coll"
  using assms by (auto simp: find_entries_def split: sum.splits)

lemma set_sort_createdAt_desc: "set (sort_createdAt_desc xs) = set xs"
  by (simp add: sort_createdAt_desc_def)


lemma get_entries_200:
  assumes "get_entries rx coll req_user q = (200, List_data entries pg)"
  obtains found where "validateQuery q"
    and "find_entries rx (build_filter req_user q) coll = Inr found"
    and "entries = take (nat (int_or 10 (q_limit q)))
                     (drop (nat ((int_or 1 (q_page q) - 1) * int_or 10 (q_limit q))) (sort_createdAt_desc found))"
    and "pg_total pg = int (length found)"
  using assms by (auto simp: get_entries_def Let_def split: if_splits sum.splits)

text \<open>
  C4. Whatever the caller's role and whatever the search, status, from, to, page and
  limit parameters, every entry in a list response is a stored entry whose userId is the
  caller's id, and the reported total is the number of the caller's own entries that
  satisfy the search and the filters.
\<close>

theorem list_ownership:
  assumes "get_entries rx coll req_user q = (200, List_data entries pg)"
  shows "(\<forall>e\<in>set entries. e \<in> set coll \<and> userId e = user_oid req_user)
       \<and> (\<exists>mo mf mt.
             compile rx (truthy (q_search q)) = Inr mo
             \<and> compile rx (truthy (q_from q)) = Inr mf
             \<and> compile rx (truthy (q_to q)) = Inr mt
             \<and> pg_total pg =
                 int (length (filter (\<lambda>e. userId e = user_oid req_user
                                        \<and> other_clauses mo (truthy (q_status q)) mf mt e) coll)))
       \<and> pg_total pg \<le> int (length (filter (\<lambda>e. userId e = user_oid req_user) coll))"
proof -
  from assms obtain found where f: "find_entries rx (build_filter req_user q) coll = Inr found"
    and ent: "entries = take (nat (int_or 10 (q_limit q)))
                     (drop (nat ((int_or 1 (q_page q) - 1) * int_or 10 (q_limit q))) (sort_createdAt_desc found))"
    and tot: "pg_total pg = int (length found)"
    by (rule get_entries_200)
  from f obtain mo mf mt where c: "compile rx (f_or (build_filter req_user q)) = Inr mo"
      "compile rx (f_from (build_filter req_user q)) = Inr mf"
      "compile rx (f_to (build_filter req_user q)) = Inr mt"
    and found: "found = filter (\<lambda>e. userId e = f_userId (build_filter req_user q)
                  \<and> other_clauses mo (f_status (build_filter req_user q)) mf mt e) coll"
    by (rule find_entries_Inr)
  have found': "found = filter (\<lambda>e. userId e = user_oid req_user
                  \<and> other_clauses mo (truthy (q_status q)) mf mt e) coll"
    using found by (simp add: build_filter_def)
  have "set entries \<subseteq> set found"
  proof
    fix e
    assume "e \<in> set entries"
    then have "e \<in> set (drop (nat ((int_or 1 (q_page q) - 1) * int_or 10 (q_limit q))) (sort_createdAt_desc found))"
      unfolding ent by (rule in_set_takeD)
    then have "e \<in> set (sort_createdAt_desc found)" by (rule in_set_dropD)
    then show "e \<in> set found" by (simp add: set_sort_createdAt_desc)
  qed
  then have a: "\<forall>e\<in>set entries. e \<in> set coll \<and> userId e = user_oid req_user"
    unfolding found' by auto
  have b: "\<exists>mo mf mt.
             compile rx (truthy (q_search q)) = Inr mo
             \<and> compile rx (truthy (q_from q)) = Inr mf
             \<and> compile rx (truthy (q_to q)) = Inr mt
             \<and> pg_total pg =
                 int (length (filter (\<lambda>e. userId e = user_oid req_user
                                        \<and> other_clauses mo (truthy (q_status q)) mf mt e) coll))"
    using c tot found' by (auto simp: build_filter_def)
  have "length found \<le> length (filter (\<lambda>e. userId e = user_oid req_user) coll)"
  proof -
    have "found = filter (\<lambda>e. other_clauses mo (truthy (q_status q)) mf mt e)
                    (filter (\<lambda>e. userId e = user_oid req_user) coll)"
      unfolding found' by (simp add: conj_commute)
    then show ?thesis by (metis length_filter_le)
  qed
  then have c': "pg_total pg \<le> int (length (filter (\<lambda>e. userId e = user_oid req_user) coll))"
    using tot by simp
  show ?thesis by (intro conjI a b c')
qed

lemma char_eq_char_of: "(c = char_of (n::nat)) = (take_bit 8 n = of_char c)"
  using char_of_eq_iff [of n c] by auto

lemma pune_matches: "\<exists>m. literal_engine ''pune'' = Some m \<and> m ''Pune''"
  by (simp add: literal_engine_def toUpperCase_def char_of_eq_iff char_eq_char_of)

lemma search_response:
  "get_entries literal_engine
     [sample_entry 1 7 ''TE-FY2024-25-0001'', sample_entry 2 8 ''TE-FY2024-25-0002''] user_7 search_query
   = (200, List_data [sample_entry 1 7 ''TE-FY2024-25-0001'']
        \<lparr>pg_total = 1, pg_page = 1, pg_pages = 1, pg_limit = 10, hasNext = False, hasPrev = False\<rparr>)"
proof -
  from pune_matches obtain m where m: "literal_engine ''pune'' = Some m" "m ''Pune''" by blast
  have found: "find_entries literal_engine (build_filter user_7 search_query)
      [sample_entry 1 7 ''TE-FY2024-25-0001'', sample_entry 2 8 ''TE-FY2024-25-0002'']
    = Inr [sample_entry 1 7 ''TE-FY2024-25-0001'']"
    using m by (simp add: find_entries_def compile_def build_filter_def truthy_def search_query_def
        other_clauses_def or_clause_def sample_entry_def user_7_def)
  have valid: "validateQuery search_query" by (simp add: validateQuery_def search_query_def)
  have "\<lceil>real_of_int 1 / real_of_int 10\<rceil> = 1" by (rule ceiling_unique) simp_all
  then show ?thesis
    using found valid
    by (simp add: get_entries_def Let_def int_or_def search_query_def sort_createdAt_desc_def)
qed

theorem list_ownership_witness:
  "get_entries literal_engine
     [sample_entry 1 7 ''TE-FY2024-25-0001'', sample_entry 2 8 ''TE-FY2024-25-0002''] user_7 search_query
   = (200, List_data [sample_entry 1 7 ''TE-FY2024-25-0001'']
        \<lparr>pg_total = 1, pg_page = 1, pg_pages = 1, pg_limit = 10, hasNext = False, hasPrev = False\<rparr>)
   \<and> list_all (\<lambda>e. userId e = user_oid user_7) [sample_entry 1 7 ''TE-FY2024-25-0001'']"
proof -
  from list_ownership [OF search_response]
  have "\<forall>e\<in>set [sample_entry 1 7 ''TE-FY2024-25-0001'']. userId e = user_oid user_7"
    by blast
  then have "list_all (\<lambda>e. userId e = user_oid user_7) [sample_entry 1 7 ''TE-FY2024-25-0001'']"
    by (simp only: list_all_iff)
  with search_response show ?thesis by (intro conjI)
qed

section \<open>The pagination envelope\<close>




section \<open>Statistics\<close>

lemma count_list_length_filter: "count_list xs k = length (filter (\<lambda>x. x = k) xs)"
  by (induction xs) simp_all

lemma sum_group_count: "sum_list (map snd (group_count xs)) = length xs"
proof -
  have "sum_list (map snd (group_count xs)) = sum_list (map (count_list xs) (remdups xs))"
    by (simp add: group_count_def comp_def)
  also have "\<dots> = sum (count_list xs) (set xs)"
    by (simp add: sum_list_distinct_conv_sum_set)
  also have "\<dots> = length xs" by (rule sum_count_set) simp_all
  finally show ?thesis .
qed

lemma group_count_keys: "map fst (group_count xs) = remdups xs"
  by (simp add: group_count_def comp_def)

lemma group_count_rows:
  "(k, n) \<in> set (group_count xs) \<Longrightarrow> 0 < n \<and> n = length (filter (\<lambda>x. x = k) xs)"
proof -
  assume "(k, n) \<in> set (group_count xs)"
  then have k: "k \<in> set xs" and n: "n = count_list xs k" by (auto simp: group_count_def)
  from k have "count_list xs k \<noteq> 0" by (simp add: count_list_0_iff)
  with n show ?thesis by (simp add: count_list_length_filter)
qed

text \<open>
  C8. The statistics response of a caller is 200 with \<open>totalEntries\<close> the number of
  the caller's entries; a breakdown with one row for each status that occurs among them,
  each row counting the caller's entries of that status, so that the counts add up to
  \<open>totalEntries\<close>; and \<open>totalAmount\<close> the sum of \<open>transportBillData.total\<close> over
  the caller's entries (a missing amount counting as zero), which is 0 when the caller has
  no entry.
\<close>

theorem stats_consistent:
  "\<exists>s. stats_summary coll req_user sevenDaysAgo = (200, Stats_data s)
        \<and> totalEntries s = length (filter (\<lambda>e. userId e = user_oid req_user) coll)
        \<and> sum_list (map snd (statusBreakdown s)) = totalEntries s
        \<and> distinct (map fst (statusBreakdown s))
        \<and> (\<forall>(k, n) \<in> set (statusBreakdown s).
              0 < n \<and> n = length (filter (\<lambda>e. userId e = user_oid req_user \<and> status e = k) coll))
        \<and> totalAmount s
            = sum_list (map (\<lambda>e. or_default 0 (total e)) (filter (\<lambda>e. userId e = user_oid req_user) coll))
        \<and> (filter (\<lambda>e. userId e = user_oid req_user) coll = [] \<longrightarrow> totalAmount s = 0)"
proof -
  let ?mine = "filter (\<lambda>e. userId e = user_oid req_user) coll"
  let ?amount = "case group_sum ?mine of [] \<Rightarrow> 0 | t # _ \<Rightarrow> if t = 0 then 0 else t"
  let ?s = "\<lparr>totalEntries = length ?mine, statusBreakdown = group_count (map status ?mine),
             totalAmount = ?amount,
             recentEntries = length (filter (\<lambda>e. userId e = user_oid req_user \<and> createdAt e \<ge> sevenDaysAgo) coll)\<rparr>"
  have resp: "stats_summary coll req_user sevenDaysAgo = (200, Stats_data ?s)"
    by (simp add: stats_summary_def Let_def)
  have amount: "?amount = sum_list (map (\<lambda>e. or_default 0 (total e)) ?mine)"
    by (simp add: group_sum_def)
  have rows: "\<forall>(k, n) \<in> set (group_count (map status ?mine)).
              0 < n \<and> n = length (filter (\<lambda>e. userId e = user_oid req_user \<and> status e = k) coll)"
  proof
    fix x
    assume x: "x \<in> set (group_count (map status ?mine))"
    obtain k n where kn: "x = (k, n)" by (cases x)
    from x kn have "(k, n) \<in> set (group_count (map status ?mine))" by simp
    from group_count_rows [OF this]
    have "0 < n" and n: "n = length (filter (\<lambda>x. x = k) (map status ?mine))"
      by (rule conjunct1, rule conjunct2)
    have "filter (\<lambda>x. x = k) (map status ?mine)
        = map status (filter (\<lambda>e. status e = k) ?mine)"
      by (simp add: filter_map comp_def)
    moreover have "filter (\<lambda>e. status e = k) ?mine
        = filter (\<lambda>e. userId e = user_oid req_user \<and> status e = k) coll"
      by (induction coll) simp_all
    ultimately have "length (filter (\<lambda>x. x = k) (map status ?mine))
        = length (filter (\<lambda>e. userId e = user_oid req_user \<and> status e = k) coll)"
      by simp
    with \<open>0 < n\<close> n
    show "case x of (k, n) \<Rightarrow>
            0 < n \<and> n = length (filter (\<lambda>e. userId e = user_oid req_user \<and> status e = k) coll)"
      unfolding kn by simp
  qed
  have total: "sum_list (map snd (group_count (map status ?mine))) = length ?mine"
    by (simp only: sum_group_count length_map)
  have keys: "distinct (map fst (group_count (map status ?mine)))"
    by (simp only: group_count_keys distinct_remdups)
  have none: "?mine = [] \<longrightarrow> ?amount = 0" by (simp add: group_sum_def)
  show ?thesis
  proof (rule exI [of _ ?s], intro conjI)
    show "stats_summary coll req_user sevenDaysAgo = (200, Stats_data ?s)" by (rule resp)
    show "totalEntries ?s = length ?mine" by simp
    show "sum_list (map snd (statusBreakdown ?s)) = totalEntries ?s" using total by simp
    show "distinct (map fst (statusBreakdown ?s))" using keys by simp
    show "\<forall>(k, n) \<in> set (statusBreakdown ?s).
            0 < n \<and> n = length (filter (\<lambda>e. userId e = user_oid req_user \<and> status e = k) coll)"
      using rows by simp
    show "totalAmount ?s = sum_list (map (\<lambda>e. or_default 0 (total e)) ?mine)"
      using amount by simp
    show "?mine = [] \<longrightarrow> totalAmount ?s = 0" using none by simp
  qed
qed

theorem stats_consistent_witness:
  "\<exists>s. stats_summary mixed_entries user_7 0 = (200, Stats_data s)
        \<and> totalEntries s = 2
        \<and> sum_list (map snd (statusBreakdown s)) = 2
        \<and> totalAmount s = 200"
proof -
  have mine: "filter (\<lambda>e. userId e = user_oid user_7) mixed_entries
      = [sample_entry 1 7 ''TE-FY2024-25-0001'',
         (sample_entry 3 7 ''TE-FY2024-25-0003'')\<lparr>status := Some ''COMPLETED''\<rparr>]"
    by (simp add: mixed_entries_def sample_entry_def user_7_def)
  have amount: "sum_list (map (\<lambda>e. or_default 0 (total e))
        [sample_entry 1 7 ''TE-FY2024-25-0001'',
         (sample_entry 3 7 ''TE-FY2024-25-0003'')\<lparr>status := Some ''COMPLETED''\<rparr>]) = 200"
    by (simp add: sample_entry_def or_default_def)
  from stats_consistent [of mixed_entries user_7 0]
  obtain s where "stats_summary mixed_entries user_7 0 = (200, Stats_data s)"
    and "totalEntries s = length (filter (\<lambda>e. userId e = user_oid user_7) mixed_entries)"
    and "sum_list (map snd (statusBreakdown s)) = totalEntries s"
    and "totalAmount s
          = sum_list (map (\<lambda>e. or_default 0 (total e)) (filter (\<lambda>e. userId e = user_oid user_7) mixed_entries))"
    by blast
  then show ?thesis unfolding mine amount by auto
qed

section \<open>Validation of profile and bank fields\<close>

lemma path_ok_free: "path_ok False None (\<lambda>t. True) v"
  by (simp add: path_ok_def split: option.splits)

text \<open>
  C9 (amended). The validators \<open>isValidMobile\<close>, \<open>isValidGST\<close>, \<open>isValidPAN\<close>,
  \<open>isValidIFSC\<close> and \<open>isValidAccountNumber\<close> return true for every string, so the
  schema enforces no format on the mobile number, the GST and PAN numbers, the account
  number and the IFSC code; the address has no validator either. A profile is accepted
  exactly when owner name, company name, mobile number and address are given and not
  empty, the three trimmed texts are within their length limits, and the trimmed owner
  name and company name pass \<open>isValidPersonName\<close> and \<open>isValidCompanyName\<close>, which do
  check the format: at least two characters, all of them letters, white space or a dot
  (for a company also digits, an ampersand or a hyphen). The bank fields are accepted
  exactly when the three names are within their length limits.
\<close>

theorem profile_validation:
  "(\<forall>t. isValidMobile t \<and> isValidGST t \<and> isValidPAN t \<and> isValidIFSC t \<and> isValidAccountNumber t)
   \<and> (validate_profile p =
        ((\<exists>t. ownerName p = Some t \<and> trim t \<noteq> [] \<and> length (trim t) \<le> 100
               \<and> isValidPersonName (trim t))
         \<and> (\<exists>t. companyName p = Some t \<and> trim t \<noteq> [] \<and> length (trim t) \<le> 200
               \<and> isValidCompanyName (trim t))
         \<and> (\<exists>t. mobileNumber p = Some t \<and> t \<noteq> [])
         \<and> (\<exists>t. address p = Some t \<and> trim t \<noteq> [] \<and> length (trim t) \<le> 500)))
   \<and> (validate_bank b =
        ((\<forall>t. bankName b = Some t \<longrightarrow> length (trim t) \<le> 100)
         \<and> (\<forall>t. accountHolderName b = Some t \<longrightarrow> length (trim t) \<le> 100)
         \<and> (\<forall>t. bankBranchName b = Some t \<longrightarrow> length (trim t) \<le> 200)))
   \<and> (isValidPersonName name =
        (2 \<le> length (trim name)
         \<and> (\<forall>c\<in>set (trim name). is_alpha c \<or> isWhiteSpace c \<or> c = CHR ''.'')))
   \<and> (isValidCompanyName name =
        (2 \<le> length (trim name)
         \<and> (\<forall>c\<in>set (trim name). is_alpha c \<or> is_digit c \<or> isWhiteSpace c
               \<or> c = CHR ''&'' \<or> c = CHR ''.'' \<or> c = CHR ''-'')))"
proof -
  have stubs: "\<forall>t. isValidMobile t \<and> isValidGST t \<and> isValidPAN t \<and> isValidIFSC t \<and> isValidAccountNumber t"
    by (simp add: isValidMobile_def isValidGST_def isValidPAN_def isValidIFSC_def isValidAccountNumber_def)
  have prof: "validate_profile p =
        ((\<exists>t. ownerName p = Some t \<and> trim t \<noteq> [] \<and> length (trim t) \<le> 100
               \<and> isValidPersonName (trim t))
         \<and> (\<exists>t. companyName p = Some t \<and> trim t \<noteq> [] \<and> length (trim t) \<le> 200
               \<and> isValidCompanyName (trim t))
         \<and> (\<exists>t. mobileNumber p = Some t \<and> t \<noteq> [])
         \<and> (\<exists>t. address p = Some t \<and> trim t \<noteq> [] \<and> length (trim t) \<le> 500))"
    by (auto simp: validate_profile_def path_ok_def isValidPAN_def split: option.splits)
  have bank: "validate_bank b =
        ((\<forall>t. bankName b = Some t \<longrightarrow> length (trim t) \<le> 100)
         \<and> (\<forall>t. accountHolderName b = Some t \<longrightarrow> length (trim t) \<le> 100)
         \<and> (\<forall>t. bankBranchName b = Some t \<longrightarrow> length (trim t) \<le> 200))"
    by (auto simp: validate_bank_def path_ok_def isValidAccountNumber_def isValidIFSC_def
        split: option.splits)
  have trim_Nil: "trim [] = []" by (simp add: trim_def)
  have person: "isValidPersonName name =
        (2 \<le> length (trim name)
         \<and> (\<forall>c\<in>set (trim name). is_alpha c \<or> isWhiteSpace c \<or> c = CHR ''.''))"
    using trim_Nil by (auto simp: isValidPersonName_def list_all_iff)
  have company: "isValidCompanyName name =
        (2 \<le> length (trim name)
         \<and> (\<forall>c\<in>set (trim name). is_alpha c \<or> is_digit c \<or> isWhiteSpace c
               \<or> c = CHR ''&'' \<or> c = CHR ''.'' \<or> c = CHR ''-''))"
    using trim_Nil by (auto simp: isValidCompanyName_def list_all_iff)
  show ?thesis by (intro conjI stubs prof bank person company)
qed

lemma trim_examples:
  "trim ''Ravi Kumar'' = ''Ravi Kumar''" "trim ''Kumar & Sons'' = ''Kumar & Sons''"
  "trim ''12, Main Road'' = ''12, Main Road''" "trim ''R2D2'' = ''R2D2''"
  by (simp_all add: trim_def isWhiteSpace_def)

lemma name_examples: "isValidPersonName ''Ravi Kumar''" "isValidCompanyName ''Kumar & Sons''"
  "\<not> isValidPersonName ''R2D2''"
  by (simp_all add: isValidPersonName_def isValidCompanyName_def trim_examples is_alpha_def
      is_digit_def isWhiteSpace_def)

theorem profile_validation_witness:
  "validate_profile sample_profile \<and> validate_bank sample_bank \<and> isValidPersonName ''Ravi Kumar''"
proof -
  have p: "(\<exists>t. ownerName sample_profile = Some t \<and> trim t \<noteq> [] \<and> length (trim t) \<le> 100
               \<and> isValidPersonName (trim t))
         \<and> (\<exists>t. companyName sample_profile = Some t \<and> trim t \<noteq> [] \<and> length (trim t) \<le> 200
               \<and> isValidCompanyName (trim t))
         \<and> (\<exists>t. mobileNumber sample_profile = Some t \<and> t \<noteq> [])
         \<and> (\<exists>t. address sample_profile = Some t \<and> trim t \<noteq> [] \<and> length (trim t) \<le> 500)"
    by (simp add: sample_profile_def trim_examples name_examples)
  have b: "(\<forall>t. bankName sample_bank = Some t \<longrightarrow> length (trim t) \<le> 100)
         \<and> (\<forall>t. accountHolderName sample_bank = Some t \<longrightarrow> length (trim t) \<le> 100)
         \<and> (\<forall>t. bankBranchName sample_bank = Some t \<longrightarrow> length (trim t) \<le> 200)"
    by (simp add: sample_bank_def trim_def isWhiteSpace_def)
  from profile_validation [of sample_profile sample_bank "''Ravi Kumar''"] p b name_examples(1)
  show ?thesis by blast
qed

theorem profile_validation_counterexample:
  "\<not> validate_profile (sample_profile\<lparr>ownerName := Some ''R2D2''\<rparr>)
   \<and> length ''R2D2'' \<le> 100 \<and> \<not> isValidPersonName ''R2D2''"
  by (simp add: validate_profile_def path_ok_def sample_profile_def trim_examples name_examples)

end
